theory Spec2Isabelle
  imports Main
begin

section \<open>The shared netlist\<close>

text \<open>
  The compressor of \<^verbatim>\<open>parmys-plugin/core/compressor.cc\<close> consumes and produces
  \<^verbatim>\<open>npin_t *\<close> handles and creates gate nodes in a netlist that it does not own.
  The netlist helpers it calls (\<^verbatim>\<open>make_2port_gate\<close>, \<^verbatim>\<open>add_input_pin_to_node\<close>,
  \<^verbatim>\<open>copy_input_npin\<close>, \<^verbatim>\<open>allocate_nnet\<close>, \<^verbatim>\<open>get_zero_pin\<close>, ...) live in other files
  of the repository; they are modelled below from the interface the specification gives
  them. A bit-signal is identified with the net it reads: a pin handle is the index of its
  net, and copying a pin yields another handle on the same net.

  The C++ \<^verbatim>\<open>int\<close> counters are modelled as natural numbers: they only ever hold vector
  sizes and small sums of them, and every subtraction in the source is guarded.
\<close>

datatype operation_list = LOGICAL_AND | LOGICAL_OR | LOGICAL_XOR | ADD

type_synonym npin = nat

record nnode =
  node_type :: operation_list
  input_port_sizes :: "nat list"
  input_pins :: "npin option list"
  num_output_pins :: nat

datatype net_driver = EXTERNAL | GND | NODE_OUT nat nat

record netlist =
  nodes :: "nnode list"
  nets :: "net_driver list"
  zero_net :: nat
  add_list :: "nat list"

text \<open>Modelled from the spec: gate-node construction for n-input primitives and for the
  n-bit adder. A new node has every input pin unconnected (\<open>None\<close>, the source's NULL).\<close>

definition allocate_node :: "operation_list \<Rightarrow> nat list \<Rightarrow> nat \<Rightarrow> netlist \<Rightarrow> nat \<times> netlist" where
  "allocate_node t widths width_out nl =
     (length (nodes nl),
      nl\<lparr>nodes := nodes nl @
        [\<lparr>node_type = t, input_port_sizes = widths,
          input_pins = replicate (sum_list widths) None,
          num_output_pins = width_out\<rparr>]\<rparr>)"

definition make_2port_gate ::
  "operation_list \<Rightarrow> nat \<Rightarrow> nat \<Rightarrow> nat \<Rightarrow> netlist \<Rightarrow> nat \<times> netlist" where
  "make_2port_gate t width_a width_b width_out nl = allocate_node t [width_a, width_b] width_out nl"

definition make_3port_gate ::
  "operation_list \<Rightarrow> nat \<Rightarrow> nat \<Rightarrow> nat \<Rightarrow> nat \<Rightarrow> netlist \<Rightarrow> nat \<times> netlist" where
  "make_3port_gate t width_a width_b width_c width_out nl =
     allocate_node t [width_a, width_b, width_c] width_out nl"

text \<open>Modelled from the spec: wiring a signal to input position \<open>idx\<close> of a node.\<close>

definition add_input_pin_to_node :: "nat \<Rightarrow> npin \<Rightarrow> nat \<Rightarrow> netlist \<Rightarrow> netlist" where
  "add_input_pin_to_node v p idx nl =
     nl\<lparr>nodes := (nodes nl)[v := (nodes nl ! v)\<lparr>input_pins := (input_pins (nodes nl ! v))[idx := Some p]\<rparr>]\<rparr>"

text \<open>Modelled from the spec: inputs are duplicated before wiring; the copy reads the same
  net as the original.\<close>

definition copy_input_npin :: "npin \<Rightarrow> npin" where
  "copy_input_npin p = p"

text \<open>Modelled from the spec: the netlist's constant-zero signal source.\<close>

definition get_zero_pin :: "netlist \<Rightarrow> npin" where
  "get_zero_pin nl = zero_net nl"

text \<open>\<^verbatim>\<open>make_output_pin\<close> (compressor.cc): allocates a net driven by output \<open>idx\<close> of the
  node and returns a pin on it.\<close>

definition make_output_pin :: "nat \<Rightarrow> nat \<Rightarrow> netlist \<Rightarrow> npin \<times> netlist" where
  "make_output_pin v idx nl = (length (nets nl), nl\<lparr>nets := nets nl @ [NODE_OUT v idx]\<rparr>)"

subsection \<open>Values of signals\<close>

text \<open>Modelled from the spec: what the gate primitives compute. An AND gate is the
  conjunction of its inputs, an OR gate their disjunction, an XOR gate their parity, and
  output \<open>k\<close> of an adder is bit \<open>k\<close> of the sum of its two input words. An unconnected
  input reads 0.\<close>

fun bits_value :: "bool list \<Rightarrow> nat" where
  "bits_value [] = 0"
| "bits_value (b # bs) = of_bool b + 2 * bits_value bs"

definition gate_value :: "nnode \<Rightarrow> bool list \<Rightarrow> nat \<Rightarrow> bool" where
  "gate_value v ins k =
     (case node_type v of
        LOGICAL_AND \<Rightarrow> list_all id ins
      | LOGICAL_OR \<Rightarrow> list_ex id ins
      | LOGICAL_XOR \<Rightarrow> odd (length (filter id ins))
      | ADD \<Rightarrow> (let w = hd (input_port_sizes v)
                in odd ((bits_value (take w ins) + bits_value (drop w ins)) div 2 ^ k)))"

definition pin_value :: "bool list \<Rightarrow> npin option \<Rightarrow> bool" where
  "pin_value vs p = (case p of None \<Rightarrow> False | Some n \<Rightarrow> n < length vs \<and> vs ! n)"

definition driver_value :: "(nat \<Rightarrow> bool) \<Rightarrow> nnode list \<Rightarrow> bool list \<Rightarrow> net_driver \<Rightarrow> bool" where
  "driver_value env nds vs d =
     (case d of
        EXTERNAL \<Rightarrow> env (length vs)
      | GND \<Rightarrow> False
      | NODE_OUT v k \<Rightarrow> v < length nds \<and> gate_value (nds ! v) (map (pin_value vs) (input_pins (nds ! v))) k)"

text \<open>The value of every net under an assignment \<open>env\<close> of the externally driven nets,
  computed in the order the nets were created.\<close>

definition eval_nets :: "(nat \<Rightarrow> bool) \<Rightarrow> nnode list \<Rightarrow> net_driver list \<Rightarrow> bool list" where
  "eval_nets env nds ds = foldl (\<lambda>vs d. vs @ [driver_value env nds vs d]) [] ds"

definition net_values :: "(nat \<Rightarrow> bool) \<Rightarrow> netlist \<Rightarrow> bool list" where
  "net_values env nl = eval_nets env (nodes nl) (nets nl)"

text \<open>A well-formed netlist: every driven net names an existing node, and the zero net is
  grounded. A well-formed rank structure holds signals of the netlist only.\<close>

definition driver_ok :: "nat \<Rightarrow> net_driver \<Rightarrow> bool" where
  "driver_ok n d = (case d of NODE_OUT v k \<Rightarrow> v < n | _ \<Rightarrow> True)"

definition wf_netlist :: "netlist \<Rightarrow> bool" where
  "wf_netlist nl =
     (list_all (driver_ok (length (nodes nl))) (nets nl) \<and>
      zero_net nl < length (nets nl) \<and> nets nl ! zero_net nl = GND)"

definition wf_ranks :: "netlist \<Rightarrow> npin list list \<Rightarrow> bool" where
  "wf_ranks nl rks = list_all (list_all (\<lambda>p. p < length (nets nl))) rks"

definition signal_value :: "bool list \<Rightarrow> npin \<Rightarrow> nat" where
  "signal_value vs p = of_bool (p < length vs \<and> vs ! p)"

definition rank_value :: "bool list \<Rightarrow> npin list \<Rightarrow> nat" where
  "rank_value vs r = sum_list (map (signal_value vs) r)"

fun ranks_value :: "bool list \<Rightarrow> npin list list \<Rightarrow> nat" where
  "ranks_value vs [] = 0"
| "ranks_value vs (r # rs) = rank_value vs r + 2 * ranks_value vs rs"

fun output_value :: "bool list \<Rightarrow> npin list \<Rightarrow> nat" where
  "output_value vs [] = 0"
| "output_value vs (p # ps) = signal_value vs p + 2 * output_value vs ps"

section \<open>Basic cell builders\<close>

definition implement_AND :: "npin \<Rightarrow> npin \<Rightarrow> netlist \<Rightarrow> npin \<times> netlist" where
  "implement_AND a b nl0 =
     (let (and_node, nl1) = make_2port_gate LOGICAL_AND 1 1 1 nl0;
          nl2 = add_input_pin_to_node and_node (copy_input_npin a) 0 nl1;
          nl3 = add_input_pin_to_node and_node (copy_input_npin b) 1 nl2
      in make_output_pin and_node 0 nl3)"

definition implement_FA :: "npin \<Rightarrow> npin \<Rightarrow> npin \<Rightarrow> netlist \<Rightarrow> (npin \<times> npin) \<times> netlist" where
  "implement_FA a b c nl0 =
     (let (sum_node, nl1) = make_3port_gate LOGICAL_XOR 1 1 1 1 nl0;
          nl2 = add_input_pin_to_node sum_node (copy_input_npin a) 0 nl1;
          nl3 = add_input_pin_to_node sum_node (copy_input_npin b) 1 nl2;
          nl4 = add_input_pin_to_node sum_node (copy_input_npin c) 2 nl3;
          (sum, nl5) = make_output_pin sum_node 0 nl4;
          (carry_node, nl6) = make_3port_gate LOGICAL_OR 1 1 1 1 nl5;
          (ab, nl7) = implement_AND a b nl6;
          nl8 = add_input_pin_to_node carry_node ab 0 nl7;
          (ac, nl9) = implement_AND a c nl8;
          nl10 = add_input_pin_to_node carry_node ac 1 nl9;
          (bc, nl11) = implement_AND b c nl10;
          nl12 = add_input_pin_to_node carry_node bc 2 nl11;
          (carry, nl13) = make_output_pin carry_node 0 nl12
      in ((sum, carry), nl13))"

definition implement_HA :: "npin \<Rightarrow> npin \<Rightarrow> netlist \<Rightarrow> (npin \<times> npin) \<times> netlist" where
  "implement_HA a b nl0 =
     (let (sum_node, nl1) = make_2port_gate LOGICAL_XOR 1 1 1 nl0;
          nl2 = add_input_pin_to_node sum_node (copy_input_npin a) 0 nl1;
          nl3 = add_input_pin_to_node sum_node (copy_input_npin b) 1 nl2;
          (sum, nl4) = make_output_pin sum_node 0 nl3;
          (carry, nl5) = implement_AND a b nl4
      in ((sum, carry), nl5))"

section \<open>Rank structures and the variables of the reducers\<close>

text \<open>
  A rank is a \<^verbatim>\<open>std::vector<npin_t *>\<close>: \<^verbatim>\<open>back()\<close> is \<open>last\<close>, \<^verbatim>\<open>pop_back()\<close> is
  \<open>butlast\<close> and \<^verbatim>\<open>push_back(x)\<close> appends \<open>[x]\<close>. The records hold the variables of the
  C++ functions; the loops below pass them along. Every \<^verbatim>\<open>back()\<close>/\<^verbatim>\<open>pop_back()\<close> of the
  source is guarded by a size test on the same vector, and \<^verbatim>\<open>temp[i]\<close>, \<^verbatim>\<open>temp[i+1]\<close> are
  rows pushed just before they are used. The one read the source does not guard, \<^verbatim>\<open>ranks[i]\<close>
  in the re-append loops, is checked in the model and fails with \<open>OutOfBounds\<close>.
\<close>

datatype error = OutOfBounds | UnrecognizedTreeType

record rank_vars =
  ranks :: "npin list list"
  netl :: netlist

record tree_vars = rank_vars +
  temp :: "npin list list"
  max_rank_size :: nat
  cur_ranks_size :: nat
  new_ranks_size :: nat

record wallace_vars = tree_vars +
  is_first_reducible_rank :: bool
  last_adder_count :: nat

record dadda_vars = tree_vars +
  last_carry_count :: nat
  d :: nat
  d_factors :: "nat list"

text \<open>A \<^verbatim>\<open>for\<close> loop whose body may fail: the first failure ends it.\<close>

fun for_each :: "(nat \<Rightarrow> 's \<Rightarrow> error + 's) \<Rightarrow> nat list \<Rightarrow> 's \<Rightarrow> error + 's" where
  "for_each f [] s = Inr s"
| "for_each f (i # js) s = (case f i s of Inl e \<Rightarrow> Inl e | Inr s' \<Rightarrow> for_each f js s')"

text \<open>"get the maximum rank size": the first loop of both reducers.\<close>

definition get_max_rank_size :: "npin list list \<Rightarrow> nat" where
  "get_max_rank_size rks =
     fold (\<lambda>i mx. if length (rks ! i) > mx then length (rks ! i) else mx) [0..<length rks] 0"

text \<open>"make new row": \<^verbatim>\<open>temp.push_back(r0); new_ranks_size++\<close>.\<close>

definition make_new_row :: "'a tree_vars_scheme \<Rightarrow> 'a tree_vars_scheme" where
  "make_new_row st = st\<lparr>temp := temp st @ [[]], new_ranks_size := new_ranks_size st + 1\<rparr>"

text \<open>"make FA with last 3 pins" and "add FA output pins to new ranks": the block is the
  same in both reducers.\<close>

definition reduce_with_FA :: "nat \<Rightarrow> 'a tree_vars_scheme \<Rightarrow> 'a tree_vars_scheme" where
  "reduce_with_FA i st =
     (let r0 = ranks st ! i;
          a = last r0; r1 = butlast r0;
          b = last r1; r2 = butlast r1;
          c = last r2; r3 = butlast r2;
          ((sum, carry), nl) = implement_FA a b c (netl st);
          t1 = (temp st)[i := temp st ! i @ [sum]];
          t2 = t1[i + 1 := t1 ! (i + 1) @ [carry]]
      in st\<lparr>ranks := (ranks st)[i := r3], netl := nl, temp := t2\<rparr>)"

text \<open>"make HA with last 2 pins" and "add HA output pins to new ranks".\<close>

definition reduce_with_HA :: "nat \<Rightarrow> 'a tree_vars_scheme \<Rightarrow> 'a tree_vars_scheme" where
  "reduce_with_HA i st =
     (let r0 = ranks st ! i;
          a = last r0; r1 = butlast r0;
          b = last r1; r2 = butlast r1;
          ((sum, carry), nl) = implement_HA a b (netl st);
          t1 = (temp st)[i := temp st ! i @ [sum]];
          t2 = t1[i + 1 := t1 ! (i + 1) @ [carry]]
      in st\<lparr>ranks := (ranks st)[i := r2], netl := nl, temp := t2\<rparr>)"

text \<open>"check for max size" at the end of a re-append step: reads \<^verbatim>\<open>ranks[i].size()\<close>.\<close>

definition check_max_size :: "nat \<Rightarrow> 'a tree_vars_scheme \<Rightarrow> error + 'a tree_vars_scheme" where
  "check_max_size i st =
     (if i < length (ranks st)
      then Inr (if length (ranks st ! i) > max_rank_size st
                then st\<lparr>max_rank_size := length (ranks st ! i)\<rparr> else st)
      else Inl OutOfBounds)"

text \<open>"copy all elements over to corresponding rank, else add new rank".\<close>

definition append_temp_rank :: "nat \<Rightarrow> 'a tree_vars_scheme \<Rightarrow> 'a tree_vars_scheme" where
  "append_temp_rank i st =
     (if i < cur_ranks_size st
      then st\<lparr>ranks := (ranks st)[i := ranks st ! i @ temp st ! i]\<rparr>
      else st\<lparr>ranks := ranks st @ [temp st ! i]\<rparr>)"

section \<open>Wallace reducer\<close>

function wallace_FA_loop :: "nat \<Rightarrow> nat \<times> nat \<times> wallace_vars \<Rightarrow> nat \<times> nat \<times> wallace_vars" where
  "wallace_FA_loop i (rank_size, cur_adder_count, st) =
     (if rank_size \<ge> 3
      then wallace_FA_loop i
             (rank_size - 3, cur_adder_count + 1,
              (reduce_with_FA i st)\<lparr>is_first_reducible_rank := False\<rparr>)
      else (rank_size, cur_adder_count, st))"
  by pat_completeness auto
termination
  by (relation "measure (\<lambda>(i, rank_size, c, st). rank_size)") auto

definition wallace_HA :: "nat \<Rightarrow> nat \<Rightarrow> nat \<times> nat \<times> wallace_vars \<Rightarrow> nat \<times> nat \<times> wallace_vars" where
  "wallace_HA target_rank_size i x =
     (case x of (rank_size, cur_adder_count, st) \<Rightarrow>
        if rank_size = 2 \<and>
           (is_first_reducible_rank st \<or>
            cur_adder_count + last_adder_count st + rank_size > target_rank_size)
        then (rank_size - 2, cur_adder_count + 1,
              (reduce_with_HA i st)\<lparr>is_first_reducible_rank := False\<rparr>)
        else (rank_size, cur_adder_count, st))"

text \<open>The body of "reduce current ranks" for rank \<open>i\<close>.\<close>

definition wallace_rank :: "nat \<Rightarrow> nat \<Rightarrow> wallace_vars \<Rightarrow> wallace_vars" where
  "wallace_rank target_rank_size i st0 =
     (let rank_size = length (ranks st0 ! i);
          st1 = (if new_ranks_size st0 < i + 1 then make_new_row st0 else st0)
      in if rank_size < 2 then st1\<lparr>last_adder_count := 0\<rparr>
         else
           (let st2 = (if new_ranks_size st1 < i + 2 then make_new_row st1 else st1)
            in case wallace_HA target_rank_size i (wallace_FA_loop i (rank_size, 0, st2)) of
                 (rank_size', cur_adder_count, st3) \<Rightarrow> st3\<lparr>last_adder_count := cur_adder_count\<rparr>))"

text \<open>The body of "re-append all from temp" for index \<open>i\<close>.\<close>

definition wallace_merge :: "nat \<Rightarrow> wallace_vars \<Rightarrow> error + wallace_vars" where
  "wallace_merge i st =
     (if temp st ! i \<noteq> [] then check_max_size i (append_temp_rank i st)
      else if i \<ge> cur_ranks_size st then Inr st
      else check_max_size i st)"

text \<open>One pass of the \<^verbatim>\<open>while (max_rank_size > 2)\<close> loop: the tracker variables are
  initialised, the first \<open>n\<close> ranks are reduced (\<open>n\<close> is \<^verbatim>\<open>cur_ranks_size\<close> for the whole
  loop), the rows of \<^verbatim>\<open>temp\<close> are re-appended, \<^verbatim>\<open>temp\<close> is cleared and the rank count
  re-assigned.\<close>

definition wallace_target :: "wallace_vars \<Rightarrow> nat" where
  "wallace_target st = (max_rank_size st div 3) * 2 + max_rank_size st mod 3"

definition wallace_stage_begin :: "wallace_vars \<Rightarrow> wallace_vars" where
  "wallace_stage_begin st =
     st\<lparr>is_first_reducible_rank := True, last_adder_count := 0, new_ranks_size := 0\<rparr>"

definition wallace_reduce_ranks :: "nat \<Rightarrow> wallace_vars \<Rightarrow> wallace_vars" where
  "wallace_reduce_ranks n st =
     fold (wallace_rank (wallace_target st)) [0..<n] (wallace_stage_begin st)"

definition wallace_stage :: "wallace_vars \<Rightarrow> error + wallace_vars" where
  "wallace_stage st0 =
     (let st2 = wallace_reduce_ranks (cur_ranks_size st0) st0
      in case for_each wallace_merge [0..<new_ranks_size st2] (st2\<lparr>max_rank_size := 0\<rparr>) of
           Inl e \<Rightarrow> Inl e
         | Inr st3 \<Rightarrow> Inr (st3\<lparr>temp := [], cur_ranks_size := length (ranks st3)\<rparr>))"

partial_function (option) wallace_loop :: "wallace_vars \<Rightarrow> (error + wallace_vars) option" where
  "wallace_loop st =
     (if max_rank_size st > 2
      then (case wallace_stage st of Inl e \<Rightarrow> Some (Inl e) | Inr st' \<Rightarrow> wallace_loop st')
      else Some (Inr st))"

declare wallace_loop.simps [code]

definition wallace_init :: "netlist \<Rightarrow> npin list list \<Rightarrow> wallace_vars" where
  "wallace_init nl rks =
     \<lparr>ranks = rks, netl = nl, temp = [], max_rank_size = get_max_rank_size rks,
      cur_ranks_size = length rks, new_ranks_size = 0,
      is_first_reducible_rank = True, last_adder_count = 0\<rparr>"

text \<open>The reduction part of \<^verbatim>\<open>implement_compressor_tree_wallace\<close>: everything before the
  final call of \<^verbatim>\<open>ranks_to_adder_chain\<close>.\<close>

definition wallace_reduce :: "netlist \<Rightarrow> npin list list \<Rightarrow> (error + wallace_vars) option" where
  "wallace_reduce nl rks = wallace_loop (wallace_init nl rks)"

section \<open>Dadda reducer\<close>

text \<open>"get all d-factors": \<^verbatim>\<open>while (d < max_rank_size) { d_factors.push_back(d); d = d * 3 / 2; }\<close>.\<close>

partial_function (option) dadda_get_d_factors :: "dadda_vars \<Rightarrow> dadda_vars option" where
  "dadda_get_d_factors st =
     (if d st < max_rank_size st
      then dadda_get_d_factors (st\<lparr>d_factors := d_factors st @ [d st], d := d st * 3 div 2\<rparr>)
      else Some st)"

text \<open>"roll d back by one".\<close>

definition dadda_roll_back :: "dadda_vars \<Rightarrow> dadda_vars" where
  "dadda_roll_back st =
     (if d_factors st \<noteq> []
      then st\<lparr>d := last (d_factors st), d_factors := butlast (d_factors st)\<rparr>
      else st)"

function dadda_FA_loop :: "nat \<Rightarrow> nat \<times> nat \<times> dadda_vars \<Rightarrow> nat \<times> nat \<times> dadda_vars" where
  "dadda_FA_loop i (rank_size, cur_adder_count, st) =
     (if rank_size + last_carry_count st + cur_adder_count > d st + 1 \<and> rank_size \<ge> 3
      then dadda_FA_loop i (rank_size - 3, cur_adder_count + 1, reduce_with_FA i st)
      else (rank_size, cur_adder_count, st))"
  by pat_completeness auto
termination
  by (relation "measure (\<lambda>(i, rank_size, c, st). rank_size)") auto

definition dadda_HA :: "nat \<Rightarrow> nat \<times> nat \<times> dadda_vars \<Rightarrow> nat \<times> nat \<times> dadda_vars" where
  "dadda_HA i x =
     (case x of (rank_size, cur_adder_count, st) \<Rightarrow>
        if rank_size + last_carry_count st + cur_adder_count = d st + 1 \<and> rank_size \<ge> 2
        then (rank_size - 2, cur_adder_count + 1, reduce_with_HA i st)
        else (rank_size, cur_adder_count, st))"

text \<open>The body of "reduce current ranks" for rank \<open>i\<close>. The \<^verbatim>\<open>continue\<close> of a rank that
  needs no reduction leaves \<^verbatim>\<open>last_carry_count\<close> as it is.\<close>

definition dadda_rank :: "nat \<Rightarrow> dadda_vars \<Rightarrow> dadda_vars" where
  "dadda_rank i st0 =
     (let rank_size = length (ranks st0 ! i);
          st1 = (if new_ranks_size st0 < i + 1 then make_new_row st0 else st0)
      in if rank_size + last_carry_count st1 \<le> d st1 then st1
         else
           (let st2 = (if new_ranks_size st1 < i + 2 then make_new_row st1 else st1)
            in case dadda_HA i (dadda_FA_loop i (rank_size, 0, st2)) of
                 (rank_size', cur_adder_count, st3) \<Rightarrow> st3\<lparr>last_carry_count := cur_adder_count\<rparr>))"

text \<open>The body of "re-append all from temp" for index \<open>i\<close>: unlike the Wallace reducer it
  reads \<^verbatim>\<open>ranks[i]\<close> whether or not the row of \<^verbatim>\<open>temp\<close> was empty.\<close>

definition dadda_merge :: "nat \<Rightarrow> dadda_vars \<Rightarrow> error + dadda_vars" where
  "dadda_merge i st =
     (if temp st ! i \<noteq> [] then check_max_size i (append_temp_rank i st)
      else check_max_size i st)"

text \<open>"reduce d if possible".\<close>

function dadda_reduce_d :: "dadda_vars \<Rightarrow> dadda_vars" where
  "dadda_reduce_d st =
     (if d_factors st \<noteq> []
      then (let st' = st\<lparr>d := last (d_factors st), d_factors := butlast (d_factors st)\<rparr>
            in if d st' < max_rank_size st' then st' else dadda_reduce_d st')
      else st)"
  by pat_completeness auto
termination
  by (relation "measure (\<lambda>st. length (d_factors st))") auto

text \<open>One pass of the \<^verbatim>\<open>while (max_rank_size > 2)\<close> loop, in the same steps as the
  Wallace one, followed by "reduce d if possible".\<close>

definition dadda_stage_begin :: "dadda_vars \<Rightarrow> dadda_vars" where
  "dadda_stage_begin st = st\<lparr>new_ranks_size := 0, last_carry_count := 0\<rparr>"

definition dadda_reduce_ranks :: "nat \<Rightarrow> dadda_vars \<Rightarrow> dadda_vars" where
  "dadda_reduce_ranks n st = fold dadda_rank [0..<n] (dadda_stage_begin st)"

definition dadda_stage :: "dadda_vars \<Rightarrow> error + dadda_vars" where
  "dadda_stage st0 =
     (let st2 = dadda_reduce_ranks (cur_ranks_size st0) st0
      in case for_each dadda_merge [0..<new_ranks_size st2] (st2\<lparr>max_rank_size := 0\<rparr>) of
           Inl e \<Rightarrow> Inl e
         | Inr st3 \<Rightarrow> Inr (dadda_reduce_d (st3\<lparr>temp := [], cur_ranks_size := length (ranks st3)\<rparr>)))"

partial_function (option) dadda_loop :: "dadda_vars \<Rightarrow> (error + dadda_vars) option" where
  "dadda_loop st =
     (if max_rank_size st > 2
      then (case dadda_stage st of Inl e \<Rightarrow> Some (Inl e) | Inr st' \<Rightarrow> dadda_loop st')
      else Some (Inr st))"

declare dadda_get_d_factors.simps [code]
declare dadda_loop.simps [code]

definition dadda_init :: "netlist \<Rightarrow> npin list list \<Rightarrow> dadda_vars" where
  "dadda_init nl rks =
     \<lparr>ranks = rks, netl = nl, temp = [], max_rank_size = get_max_rank_size rks,
      cur_ranks_size = length rks, new_ranks_size = 0,
      last_carry_count = 0, d = 2, d_factors = []\<rparr>"

text \<open>The reduction part of \<^verbatim>\<open>implement_compressor_tree_dadda\<close>: the d-factors are
  collected and rolled back by one, then the loop runs; everything before the final call of
  \<^verbatim>\<open>ranks_to_adder_chain\<close>.\<close>

definition dadda_schedule :: "netlist \<Rightarrow> npin list list \<Rightarrow> dadda_vars option" where
  "dadda_schedule nl rks = map_option dadda_roll_back (dadda_get_d_factors (dadda_init nl rks))"

definition dadda_reduce :: "netlist \<Rightarrow> npin list list \<Rightarrow> (error + dadda_vars) option" where
  "dadda_reduce nl rks =
     (case dadda_schedule nl rks of
        None \<Rightarrow> None
      | Some st \<Rightarrow> dadda_loop st)"

section \<open>Carry-chain finisher\<close>

record chain_vars = rank_vars +
  ret :: "npin list"
  add_node :: nat
  makingAdderChain :: bool
  adder_start_i :: nat
  adder_input_size :: nat

text \<open>Modelled from the spec: the registry of adder nodes; a new node is put in front.\<close>

definition insert_in_vptr_list :: "nat list \<Rightarrow> nat \<Rightarrow> nat list" where
  "insert_in_vptr_list l v = v # l"

text \<open>"Make the adder chain if not yet instantiated."\<close>

definition make_adder_chain :: "nat \<Rightarrow> nat \<Rightarrow> chain_vars \<Rightarrow> chain_vars" where
  "make_adder_chain cur_size i st =
     (let width = cur_size - i;
          (v, nl) = make_2port_gate ADD width width (width + 1) (netl st)
      in st\<lparr>makingAdderChain := True, adder_input_size := width, add_node := v,
            netl := nl\<lparr>add_list := insert_in_vptr_list (add_list nl) v\<rparr>,
            adder_start_i := i\<rparr>)"

text \<open>"insert pins into adder": the pins of rank \<open>i\<close> go to positions \<open>adder_idx\<close> and
  \<open>adder_input_size + adder_idx\<close>; the output signal is a new output pin of the adder.\<close>

definition insert_pins_into_adder :: "nat \<Rightarrow> nat \<Rightarrow> chain_vars \<Rightarrow> npin \<times> chain_vars" where
  "insert_pins_into_adder rank_size i st =
     (let adder_idx = i - adder_start_i st;
          r0 = ranks st ! i;
          nl1 = add_input_pin_to_node (add_node st) (last r0) adder_idx (netl st);
          r1 = butlast r0;
          (second_input, r2) =
             (if rank_size > 1 then (last r1, butlast r1) else (get_zero_pin nl1, r1));
          nl2 = add_input_pin_to_node (add_node st) second_input (adder_input_size st + adder_idx) nl1;
          (pin, nl3) = make_output_pin (add_node st) adder_idx nl2
      in (pin, st\<lparr>ranks := (ranks st)[i := r2], netl := nl3\<rparr>))"

text \<open>The body of the loop of \<^verbatim>\<open>ranks_to_adder_chain\<close> for rank \<open>i\<close>.\<close>

definition chain_rank :: "nat \<Rightarrow> nat \<Rightarrow> chain_vars \<Rightarrow> chain_vars" where
  "chain_rank cur_size i st0 =
     (let rank_size = length (ranks st0 ! i);
          st1 = (if rank_size > 1 \<and> \<not> makingAdderChain st0
                 then make_adder_chain cur_size i st0 else st0);
          (pin, st2) =
             (if rank_size \<noteq> 0
              then (if makingAdderChain st1 then insert_pins_into_adder rank_size i st1
                    else (last (ranks st1 ! i),
                          st1\<lparr>ranks := (ranks st1)[i := butlast (ranks st1 ! i)]\<rparr>))
              else (get_zero_pin (netl st1), st1))
      in st2\<lparr>ret := ret st2 @ [pin]\<rparr>)"

definition chain_init :: "netlist \<Rightarrow> npin list list \<Rightarrow> chain_vars" where
  "chain_init nl rks =
     \<lparr>ranks = rks, netl = nl, ret = [], add_node = 0, makingAdderChain = False,
      adder_start_i = 0, adder_input_size = 0\<rparr>"

text \<open>"add the last adder output of the carry chain (if it exists)".\<close>

definition chain_carry_out :: "chain_vars \<Rightarrow> chain_vars" where
  "chain_carry_out st =
     (if makingAdderChain st
      then (let (pin, nl) = make_output_pin (add_node st) (adder_input_size st) (netl st)
            in st\<lparr>ret := ret st @ [pin], netl := nl\<rparr>)
      else st)"

definition ranks_to_adder_chain :: "netlist \<Rightarrow> npin list list \<Rightarrow> chain_vars" where
  "ranks_to_adder_chain nl rks =
     chain_carry_out (fold (chain_rank (length rks)) [0..<length rks] (chain_init nl rks))"

section \<open>The reducers with the finisher, and the dispatcher\<close>

definition finish :: "(error + 'a tree_vars_scheme) option \<Rightarrow> (error + npin list \<times> netlist) option" where
  "finish r =
     (case r of
        None \<Rightarrow> None
      | Some (Inl e) \<Rightarrow> Some (Inl e)
      | Some (Inr st) \<Rightarrow>
          (let c = ranks_to_adder_chain (netl st) (ranks st) in Some (Inr (ret c, netl c))))"

definition implement_compressor_tree_wallace ::
  "netlist \<Rightarrow> npin list list \<Rightarrow> (error + npin list \<times> netlist) option" where
  "implement_compressor_tree_wallace nl rks = finish (wallace_reduce nl rks)"

definition implement_compressor_tree_dadda ::
  "netlist \<Rightarrow> npin list list \<Rightarrow> (error + npin list \<times> netlist) option" where
  "implement_compressor_tree_dadda nl rks = finish (dadda_reduce nl rks)"

text \<open>The enumeration is closed; \<open>OTHER_TREE_TYPE\<close> stands for any other value of its
  underlying type, which the \<^verbatim>\<open>default\<close> branch rejects.\<close>

datatype compressor_tree_type_e = WALLACE | DADDA | OTHER_TREE_TYPE

definition implement_compressor_tree ::
  "compressor_tree_type_e \<Rightarrow> netlist \<Rightarrow> npin list list \<Rightarrow> (error + npin list \<times> netlist) option" where
  "implement_compressor_tree tree_type nl rks =
     (case tree_type of
        WALLACE \<Rightarrow> implement_compressor_tree_wallace nl rks
      | DADDA \<Rightarrow> implement_compressor_tree_dadda nl rks
      | OTHER_TREE_TYPE \<Rightarrow> Some (Inl UnrecognizedTreeType))"

section \<open>Notions used to state the properties\<close>

definition netlist_extends :: "netlist \<Rightarrow> netlist \<Rightarrow> bool" where
  "netlist_extends nl nl' =
     (take (length (nodes nl)) (nodes nl') = nodes nl \<and>
      take (length (nets nl)) (nets nl') = nets nl \<and>
      zero_net nl' = zero_net nl \<and> add_list nl' = add_list nl)"

definition majority :: "bool \<Rightarrow> bool \<Rightarrow> bool \<Rightarrow> bool" where
  "majority a b c = ((a \<and> b) \<or> (b \<and> c) \<or> (a \<and> c))"

text \<open>Signal \<open>p\<close> is the output of an AND gate reading \<open>a\<close> and \<open>b\<close>; of an OR gate reading
  \<open>x\<close>, \<open>y\<close> and \<open>z\<close>.\<close>

definition is_AND_of :: "netlist \<Rightarrow> npin \<Rightarrow> npin \<Rightarrow> npin \<Rightarrow> bool" where
  "is_AND_of nl p a b =
     (p < length (nets nl) \<and>
      (case nets nl ! p of
         NODE_OUT v k \<Rightarrow> v < length (nodes nl) \<and> node_type (nodes nl ! v) = LOGICAL_AND \<and>
                         input_pins (nodes nl ! v) = [Some a, Some b]
       | _ \<Rightarrow> False))"

definition is_OR3_of :: "netlist \<Rightarrow> npin \<Rightarrow> npin \<Rightarrow> npin \<Rightarrow> npin \<Rightarrow> bool" where
  "is_OR3_of nl p x y z =
     (p < length (nets nl) \<and>
      (case nets nl ! p of
         NODE_OUT v k \<Rightarrow> v < length (nodes nl) \<and> node_type (nodes nl ! v) = LOGICAL_OR \<and>
                         input_pins (nodes nl ! v) = [Some x, Some y, Some z]
       | _ \<Rightarrow> False))"

text \<open>A signal allocated between two states of the netlist.\<close>

definition fresh_signal :: "netlist \<Rightarrow> netlist \<Rightarrow> npin \<Rightarrow> bool" where
  "fresh_signal nl nl' p = (length (nets nl) \<le> p \<and> p < length (nets nl'))"

text \<open>A netlist of \<open>n\<close> externally driven signals \<open>0, ..., n - 1\<close> and the zero signal \<open>n\<close>,
  without any gate: the netlist of the examples.\<close>

definition example_netlist :: "nat \<Rightarrow> netlist" where
  "example_netlist n = \<lparr>nodes = [], nets = replicate n EXTERNAL @ [GND], zero_net = n, add_list = []\<rparr>"

text \<open>The number the output sequence of a run denotes under an assignment of the external
  signals (\<open>None\<close>: the run gave no output sequence).\<close>

definition compress_value ::
  "compressor_tree_type_e \<Rightarrow> (nat \<Rightarrow> bool) \<Rightarrow> netlist \<Rightarrow> npin list list \<Rightarrow> nat option" where
  "compress_value t env nl rks =
     (case implement_compressor_tree t nl rks of
        Some (Inr (outs, nl')) \<Rightarrow> Some (output_value (net_values env nl') outs)
      | _ \<Rightarrow> None)"

text \<open>Every full adder and every half adder holds exactly one XOR gate, and nothing else
  creates one: the number of XOR gates is the number of adder cells inserted.\<close>

definition adder_count :: "netlist \<Rightarrow> nat" where
  "adder_count nl = length (filter (\<lambda>v. node_type v = LOGICAL_XOR) (nodes nl))"

text \<open>The variables of the first Dadda stage once the ranks below \<open>k\<close> are processed.\<close>

definition dadda_first_stage :: "netlist \<Rightarrow> npin list list \<Rightarrow> nat \<Rightarrow> dadda_vars option" where
  "dadda_first_stage nl rks k = map_option (dadda_reduce_ranks k) (dadda_schedule nl rks)"

text \<open>The half-adder rule of the Wallace reducer in the words of the specification: rank
  \<open>i\<close> is the first rank of the stage that had height at least 2, or its adder count so far
  plus the previous rank's adder count plus its remaining height 2 exceeds the target.\<close>

definition spec_wallace_tie_break :: "nat \<Rightarrow> npin list list \<Rightarrow> nat \<Rightarrow> nat \<Rightarrow> nat \<Rightarrow> bool" where
  "spec_wallace_tie_break target rks i cur_count prev_count =
     ((length (rks ! i) \<ge> 2 \<and> list_all (\<lambda>r. length r < 2) (take i rks)) \<or>
      cur_count + prev_count + 2 > target)"

subsection \<open>The result of the finisher\<close>

text \<open>The index of the first rank with more than one signal (the number of ranks if there is
  none): where the adder starts.\<close>

definition adder_start :: "npin list list \<Rightarrow> nat" where
  "adder_start rks = length (takeWhile (\<lambda>r. length r \<le> 1) rks)"

text \<open>What the adder inputs of rank \<open>i\<close> hold once the ranks below \<open>k\<close> are processed, and
  the output signal of rank \<open>i\<close>: the zero signal for an empty rank, the rank's own signal
  before the adder, otherwise the net allocated for the adder output of that position.\<close>

definition chain_first_input :: "npin list list \<Rightarrow> nat \<Rightarrow> nat \<Rightarrow> npin option" where
  "chain_first_input rks k i = (if i < k \<and> rks ! i \<noteq> [] then Some (last (rks ! i)) else None)"

definition chain_second_input :: "netlist \<Rightarrow> npin list list \<Rightarrow> nat \<Rightarrow> nat \<Rightarrow> npin option" where
  "chain_second_input nl rks k i =
     (if i < k \<and> rks ! i \<noteq> []
      then Some (if length (rks ! i) > 1 then last (butlast (rks ! i)) else zero_net nl)
      else None)"

definition chain_output :: "netlist \<Rightarrow> npin list list \<Rightarrow> nat \<Rightarrow> npin" where
  "chain_output nl rks i =
     (if rks ! i = [] then zero_net nl
      else if i < adder_start rks then last (rks ! i)
      else length (nets nl) + length (filter (\<lambda>j. rks ! j \<noteq> []) [adder_start rks..<i]))"

text \<open>The invariant of the loop of \<^verbatim>\<open>ranks_to_adder_chain\<close> after \<open>k\<close> ranks: the nets
  allocated so far, the adder's inputs, its variables, and the outputs collected.\<close>

definition chain_nets :: "netlist \<Rightarrow> npin list list \<Rightarrow> nat \<Rightarrow> net_driver list" where
  "chain_nets nl rks k =
     map (\<lambda>i. NODE_OUT (length (nodes nl)) (i - adder_start rks))
       (filter (\<lambda>i. rks ! i \<noteq> []) [adder_start rks..<k])"

definition chain_adder_pins :: "netlist \<Rightarrow> npin list list \<Rightarrow> nat \<Rightarrow> npin option list \<Rightarrow> bool" where
  "chain_adder_pins nl rks k pins =
     (length pins = 2 * (length rks - adder_start rks) \<and>
      (\<forall>j < length rks - adder_start rks.
         pins ! j = chain_first_input rks k (adder_start rks + j) \<and>
         pins ! (length rks - adder_start rks + j) =
           chain_second_input nl rks k (adder_start rks + j)))"

definition chain_adder :: "netlist \<Rightarrow> npin list list \<Rightarrow> nat \<Rightarrow> chain_vars \<Rightarrow> bool" where
  "chain_adder nl rks k st =
     (adder_start_i st = adder_start rks \<and>
      adder_input_size st = length rks - adder_start rks \<and>
      add_node st = length (nodes nl) \<and>
      zero_net (netl st) = zero_net nl \<and>
      add_list (netl st) = length (nodes nl) # add_list nl \<and>
      nets (netl st) = nets nl @ chain_nets nl rks k \<and>
      length (nodes (netl st)) = Suc (length (nodes nl)) \<and>
      take (length (nodes nl)) (nodes (netl st)) = nodes nl \<and>
      node_type (nodes (netl st) ! length (nodes nl)) = ADD \<and>
      input_port_sizes (nodes (netl st) ! length (nodes nl)) =
        [length rks - adder_start rks, length rks - adder_start rks] \<and>
      num_output_pins (nodes (netl st) ! length (nodes nl)) = length rks - adder_start rks + 1 \<and>
      chain_adder_pins nl rks k (input_pins (nodes (netl st) ! length (nodes nl))))"

definition chain_basic :: "netlist \<Rightarrow> npin list list \<Rightarrow> nat \<Rightarrow> chain_vars \<Rightarrow> bool" where
  "chain_basic nl rks k st =
     (length (ret st) = k \<and> length (ranks st) = length rks \<and>
      (\<forall>i. k \<le> i \<and> i < length rks \<longrightarrow> ranks st ! i = rks ! i) \<and>
      makingAdderChain st = (adder_start rks < k) \<and>
      (k \<le> adder_start rks \<longrightarrow> netl st = nl) \<and>
      (\<forall>i<k. ret st ! i = chain_output nl rks i))"

definition chain_inv :: "netlist \<Rightarrow> npin list list \<Rightarrow> nat \<Rightarrow> chain_vars \<Rightarrow> bool" where
  "chain_inv nl rks k st =
     (chain_basic nl rks k st \<and> (adder_start rks < k \<longrightarrow> chain_adder nl rks k st))"

section \<open>Evaluation of netlists\<close>

lemma eval_nets_Nil [simp]: "eval_nets env nds [] = []"
  by (simp add: eval_nets_def)

lemma eval_nets_snoc [simp]:
  "eval_nets env nds (ds @ [dr]) = eval_nets env nds ds @ [driver_value env nds (eval_nets env nds ds) dr]"
  by (simp add: eval_nets_def)

lemma length_eval_nets [simp]: "length (eval_nets env nds ds) = length ds"
  by (induction ds rule: rev_induct) simp_all

lemma eval_nets_append_take:
  "take (length ds) (eval_nets env nds (ds @ es)) = eval_nets env nds ds"
proof (induction es rule: rev_induct)
  case Nil
  then show ?case by simp
next
  case (snoc e es)
  have "eval_nets env nds (ds @ es @ [e]) = eval_nets env nds ((ds @ es) @ [e])" by simp
  also have "take (length ds) \<dots> = take (length ds) (eval_nets env nds (ds @ es))"
    unfolding eval_nets_snoc by simp
  finally show ?case using snoc by simp
qed

lemma driver_value_cong_nodes:
  "driver_ok (length nds) dr \<Longrightarrow> take (length nds) nds' = nds \<Longrightarrow>
   driver_value env nds' vs dr = driver_value env nds vs dr"
  apply (cases dr)
    apply (simp_all add: driver_value_def driver_ok_def)
  by (metis length_take min_less_iff_conj nth_take)

lemma eval_nets_cong_nodes:
  "list_all (driver_ok (length nds)) ds \<Longrightarrow> take (length nds) nds' = nds \<Longrightarrow>
   eval_nets env nds' ds = eval_nets env nds ds"
  by (induction ds rule: rev_induct) (simp_all add: driver_value_cong_nodes)

lemma implement_AND_eq:
  "implement_AND a b nl =
     (length (nets nl),
      nl\<lparr>nodes := nodes nl @ [\<lparr>node_type = LOGICAL_AND, input_port_sizes = [1, 1],
                                input_pins = [Some a, Some b], num_output_pins = 1\<rparr>],
         nets := nets nl @ [NODE_OUT (length (nodes nl)) 0]\<rparr>)"
  by (simp add: implement_AND_def make_2port_gate_def allocate_node_def add_input_pin_to_node_def
      copy_input_npin_def make_output_pin_def)

lemma implement_HA_eq:
  "implement_HA a b nl =
     ((length (nets nl), Suc (length (nets nl))),
      nl\<lparr>nodes := nodes nl @
           [\<lparr>node_type = LOGICAL_XOR, input_port_sizes = [1, 1],
             input_pins = [Some a, Some b], num_output_pins = 1\<rparr>,
            \<lparr>node_type = LOGICAL_AND, input_port_sizes = [1, 1],
             input_pins = [Some a, Some b], num_output_pins = 1\<rparr>],
         nets := nets nl @ [NODE_OUT (length (nodes nl)) 0, NODE_OUT (Suc (length (nodes nl))) 0]\<rparr>)"
  by (simp add: implement_HA_def implement_AND_eq make_2port_gate_def allocate_node_def add_input_pin_to_node_def
      copy_input_npin_def make_output_pin_def)

lemma implement_FA_eq:
  "implement_FA a b c nl =
     ((length (nets nl), length (nets nl) + 4),
      nl\<lparr>nodes := nodes nl @
           [\<lparr>node_type = LOGICAL_XOR, input_port_sizes = [1, 1, 1],
             input_pins = [Some a, Some b, Some c], num_output_pins = 1\<rparr>,
            \<lparr>node_type = LOGICAL_OR, input_port_sizes = [1, 1, 1],
             input_pins = [Some (length (nets nl) + 1), Some (length (nets nl) + 2),
                           Some (length (nets nl) + 3)], num_output_pins = 1\<rparr>,
            \<lparr>node_type = LOGICAL_AND, input_port_sizes = [1, 1],
             input_pins = [Some a, Some b], num_output_pins = 1\<rparr>,
            \<lparr>node_type = LOGICAL_AND, input_port_sizes = [1, 1],
             input_pins = [Some a, Some c], num_output_pins = 1\<rparr>,
            \<lparr>node_type = LOGICAL_AND, input_port_sizes = [1, 1],
             input_pins = [Some b, Some c], num_output_pins = 1\<rparr>],
         nets := nets nl @
           [NODE_OUT (length (nodes nl)) 0, NODE_OUT (length (nodes nl) + 2) 0,
            NODE_OUT (length (nodes nl) + 3) 0, NODE_OUT (length (nodes nl) + 4) 0,
            NODE_OUT (length (nodes nl) + 1) 0]\<rparr>)"
  by (simp add: implement_FA_def implement_AND_eq make_3port_gate_def allocate_node_def add_input_pin_to_node_def
      copy_input_npin_def make_output_pin_def nth_append list_update_append)

lemma eval_nets_append:
  "eval_nets env nds (ds @ es) = foldl (\<lambda>vs dr. vs @ [driver_value env nds vs dr]) (eval_nets env nds ds) es"
  by (simp add: eval_nets_def)

lemma wf_eval_nets_extend:
  "wf_netlist nl \<Longrightarrow> eval_nets env (nodes nl @ nds) (nets nl) = net_values env nl"
  unfolding net_values_def wf_netlist_def
  by (rule eval_nets_cong_nodes) simp_all

lemma length_net_values [simp]: "length (net_values env nl) = length (nets nl)"
  by (simp add: net_values_def)

lemma net_values_AND:
  assumes "wf_netlist nl" "a < length (nets nl)" "b < length (nets nl)"
  shows "net_values env (snd (implement_AND a b nl)) =
         net_values env nl @ [net_values env nl ! a \<and> net_values env nl ! b]"
  using assms
  by (simp add: implement_AND_eq net_values_def[of env "_\<lparr>nodes := _, nets := _\<rparr>"] eval_nets_append wf_eval_nets_extend
      driver_value_def gate_value_def pin_value_def nth_append)

lemma net_values_HA:
  assumes "wf_netlist nl" "a < length (nets nl)" "b < length (nets nl)"
  shows "net_values env (snd (implement_HA a b nl)) =
         net_values env nl @ [net_values env nl ! a \<noteq> net_values env nl ! b,
                              net_values env nl ! a \<and> net_values env nl ! b]"
  using assms
  by (simp add: implement_HA_eq net_values_def[of env "_\<lparr>nodes := _, nets := _\<rparr>"] eval_nets_append wf_eval_nets_extend
      driver_value_def gate_value_def pin_value_def nth_append)

lemma net_values_FA:
  assumes "wf_netlist nl" "a < length (nets nl)" "b < length (nets nl)" "c < length (nets nl)"
  shows "net_values env (snd (implement_FA a b c nl)) =
         net_values env nl @
           [net_values env nl ! a \<noteq> (net_values env nl ! b \<noteq> net_values env nl ! c),
            net_values env nl ! a \<and> net_values env nl ! b,
            net_values env nl ! a \<and> net_values env nl ! c,
            net_values env nl ! b \<and> net_values env nl ! c,
            majority (net_values env nl ! a) (net_values env nl ! b) (net_values env nl ! c)]"
  using assms
  by (simp add: implement_FA_eq net_values_def[of env "_\<lparr>nodes := _, nets := _\<rparr>"] eval_nets_append wf_eval_nets_extend
      driver_value_def gate_value_def pin_value_def nth_append majority_def)

section \<open>The cell builders\<close>

lemma wf_netlist_FA: "wf_netlist nl \<Longrightarrow> wf_netlist (snd (implement_FA a b c nl))"
  by (auto simp: implement_FA_eq wf_netlist_def nth_append driver_ok_def list_all_iff split: net_driver.splits)

lemma wf_netlist_HA: "wf_netlist nl \<Longrightarrow> wf_netlist (snd (implement_HA a b nl))"
  by (auto simp: implement_HA_eq wf_netlist_def nth_append driver_ok_def list_all_iff split: net_driver.splits)

lemma wf_example_netlist: "wf_netlist (example_netlist n)"
  by (simp add: wf_netlist_def example_netlist_def driver_ok_def list_all_iff nth_append)

text \<open>
  Claim C6. On a well-formed netlist and for signals \<open>a\<close>, \<open>b\<close>, \<open>c\<close> of it, under every
  assignment \<open>env\<close> of the external signals: \<^verbatim>\<open>implement_HA\<close> returns a sum signal of value
  \<open>a \<noteq> b\<close> (exclusive or) and a carry signal of value \<open>a \<and> b\<close>, the output of an AND gate;
  \<^verbatim>\<open>implement_FA\<close> returns a sum signal of value \<open>a \<noteq> (b \<noteq> c)\<close> and a carry signal of
  value \<open>majority a b c\<close>, the output of one OR gate fed by three AND gates on \<open>(a, b)\<close>,
  \<open>(a, c)\<close> and \<open>(b, c)\<close>. In both cases the two outputs are distinct signals allocated by
  the call, and the nodes, nets and values the netlist had before are unchanged.
\<close>

theorem cell_builders_correct:
  assumes "wf_netlist nl" and "a < length (nets nl)" and "b < length (nets nl)"
    and "c < length (nets nl)"
  shows "(\<exists>s cy nl'. implement_HA a b nl = ((s, cy), nl') \<and>
            net_values env nl' ! s = (net_values env nl ! a \<noteq> net_values env nl ! b) \<and>
            net_values env nl' ! cy = (net_values env nl ! a \<and> net_values env nl ! b) \<and>
            is_AND_of nl' cy a b \<and>
            fresh_signal nl nl' s \<and> fresh_signal nl nl' cy \<and> s \<noteq> cy \<and>
            netlist_extends nl nl' \<and> wf_netlist nl' \<and>
            take (length (nets nl)) (net_values env nl') = net_values env nl) \<and>
         (\<exists>s cy nl'. implement_FA a b c nl = ((s, cy), nl') \<and>
            net_values env nl' ! s =
              (net_values env nl ! a \<noteq> (net_values env nl ! b \<noteq> net_values env nl ! c)) \<and>
            net_values env nl' ! cy =
              majority (net_values env nl ! a) (net_values env nl ! b) (net_values env nl ! c) \<and>
            (\<exists>x y z. is_OR3_of nl' cy x y z \<and>
               is_AND_of nl' x a b \<and> is_AND_of nl' y a c \<and> is_AND_of nl' z b c) \<and>
            fresh_signal nl nl' s \<and> fresh_signal nl nl' cy \<and> s \<noteq> cy \<and>
            netlist_extends nl nl' \<and> wf_netlist nl' \<and>
            take (length (nets nl)) (net_values env nl') = net_values env nl)"
proof (intro conjI)
  obtain s cy nl' where ha: "implement_HA a b nl = ((s, cy), nl')"
    by (metis surj_pair)
  have vals: "net_values env nl' =
      net_values env nl @ [net_values env nl ! a \<noteq> net_values env nl ! b,
                           net_values env nl ! a \<and> net_values env nl ! b]"
    using net_values_HA[OF assms(1-3), of env] ha by simp
  have nl': "nl' = snd (implement_HA a b nl)"
    using ha by simp
  have s: "s = length (nets nl)" and cy: "cy = Suc (length (nets nl))"
    using ha by (auto simp: implement_HA_eq)
  have "is_AND_of nl' cy a b"
    unfolding nl' cy by (simp add: implement_HA_eq is_AND_of_def nth_append)
  moreover have "fresh_signal nl nl' s" "fresh_signal nl nl' cy" "s \<noteq> cy" "netlist_extends nl nl'"
    unfolding nl' cy s by (simp_all add: implement_HA_eq fresh_signal_def netlist_extends_def)
  moreover have "wf_netlist nl'"
    unfolding nl' by (rule wf_netlist_HA[OF assms(1)])
  ultimately show "\<exists>s cy nl'. implement_HA a b nl = ((s, cy), nl') \<and>
            net_values env nl' ! s = (net_values env nl ! a \<noteq> net_values env nl ! b) \<and>
            net_values env nl' ! cy = (net_values env nl ! a \<and> net_values env nl ! b) \<and>
            is_AND_of nl' cy a b \<and>
            fresh_signal nl nl' s \<and> fresh_signal nl nl' cy \<and> s \<noteq> cy \<and>
            netlist_extends nl nl' \<and> wf_netlist nl' \<and>
            take (length (nets nl)) (net_values env nl') = net_values env nl"
    using ha vals s cy by (simp add: nth_append)
next
  obtain s cy nl' where fa: "implement_FA a b c nl = ((s, cy), nl')"
    by (metis surj_pair)
  have vals: "net_values env nl' =
      net_values env nl @
           [net_values env nl ! a \<noteq> (net_values env nl ! b \<noteq> net_values env nl ! c),
            net_values env nl ! a \<and> net_values env nl ! b,
            net_values env nl ! a \<and> net_values env nl ! c,
            net_values env nl ! b \<and> net_values env nl ! c,
            majority (net_values env nl ! a) (net_values env nl ! b) (net_values env nl ! c)]"
    using net_values_FA[OF assms, of env] fa by simp
  have nl': "nl' = snd (implement_FA a b c nl)"
    using fa by simp
  have s: "s = length (nets nl)" and cy: "cy = length (nets nl) + 4"
    using fa by (auto simp: implement_FA_eq)
  have "is_OR3_of nl' cy (length (nets nl) + 1) (length (nets nl) + 2) (length (nets nl) + 3)"
    "is_AND_of nl' (length (nets nl) + 1) a b" "is_AND_of nl' (length (nets nl) + 2) a c"
    "is_AND_of nl' (length (nets nl) + 3) b c"
    unfolding nl' cy by (simp_all add: implement_FA_eq is_AND_of_def is_OR3_of_def nth_append)
  then have gates: "\<exists>x y z. is_OR3_of nl' cy x y z \<and>
               is_AND_of nl' x a b \<and> is_AND_of nl' y a c \<and> is_AND_of nl' z b c"
    by blast
  have "fresh_signal nl nl' s" "fresh_signal nl nl' cy" "s \<noteq> cy" "netlist_extends nl nl'"
    unfolding nl' cy s by (simp_all add: implement_FA_eq fresh_signal_def netlist_extends_def)
  moreover have "wf_netlist nl'"
    unfolding nl' by (rule wf_netlist_FA[OF assms(1)])
  ultimately show "\<exists>s cy nl'. implement_FA a b c nl = ((s, cy), nl') \<and>
            net_values env nl' ! s =
              (net_values env nl ! a \<noteq> (net_values env nl ! b \<noteq> net_values env nl ! c)) \<and>
            net_values env nl' ! cy =
              majority (net_values env nl ! a) (net_values env nl ! b) (net_values env nl ! c) \<and>
            (\<exists>x y z. is_OR3_of nl' cy x y z \<and>
               is_AND_of nl' x a b \<and> is_AND_of nl' y a c \<and> is_AND_of nl' z b c) \<and>
            fresh_signal nl nl' s \<and> fresh_signal nl nl' cy \<and> s \<noteq> cy \<and>
            netlist_extends nl nl' \<and> wf_netlist nl' \<and>
            take (length (nets nl)) (net_values env nl') = net_values env nl"
    using fa vals s cy gates by (simp add: nth_append)
qed

theorem cell_builders_correct_witness:
  "wf_netlist (example_netlist 3) \<and> 0 < length (nets (example_netlist 3)) \<and>
   1 < length (nets (example_netlist 3)) \<and> 2 < length (nets (example_netlist 3)) \<and>
   (\<exists>s cy nl'. implement_FA 0 1 2 (example_netlist 3) = ((s, cy), nl') \<and>
      net_values (\<lambda>n. n \<noteq> 1) nl' ! s = False \<and> net_values (\<lambda>n. n \<noteq> 1) nl' ! cy = True)"
proof -
  have h: "wf_netlist (example_netlist 3)" "0 < length (nets (example_netlist 3))"
    "1 < length (nets (example_netlist 3))" "2 < length (nets (example_netlist 3))"
    by (simp_all add: wf_example_netlist) (simp_all add: example_netlist_def)
  have v: "net_values (\<lambda>n. n \<noteq> 1) (example_netlist 3) = [True, False, True, False]"
    by (simp add: net_values_def example_netlist_def eval_nets_def driver_value_def numeral_3_eq_3)
  from cell_builders_correct[OF h, of "\<lambda>n. n \<noteq> 1"] v
  have "\<exists>s cy nl'. implement_FA 0 1 2 (example_netlist 3) = ((s, cy), nl') \<and>
      net_values (\<lambda>n. n \<noteq> 1) nl' ! s = False \<and> net_values (\<lambda>n. n \<noteq> 1) nl' ! cy = True"
    by (simp add: majority_def) blast
  with h show ?thesis by blast
qed

section \<open>The carry-chain finisher\<close>

lemma adder_start_le: "adder_start rks \<le> length rks"
  by (simp add: adder_start_def length_takeWhile_le)

lemma adder_start_before: "j < adder_start rks \<Longrightarrow> length (rks ! j) \<le> 1"
  unfolding adder_start_def
  by (metis (mono_tags, lifting) nth_mem set_takeWhileD takeWhile_nth)

lemma adder_start_tall: "adder_start rks < length rks \<Longrightarrow> length (rks ! adder_start rks) > 1"
  unfolding adder_start_def
  using nth_length_takeWhile[of "\<lambda>r. length r \<le> 1" rks] by simp

lemma adder_start_first:
  "i < length rks \<Longrightarrow> length (rks ! i) > 1 \<Longrightarrow> adder_start rks \<le> i"
  using adder_start_before[of i rks] by (metis leD leI)

lemmas chain_step_defs = chain_rank_def Let_def insert_pins_into_adder_def make_adder_chain_def
  make_2port_gate_def allocate_node_def add_input_pin_to_node_def make_output_pin_def
  get_zero_pin_def insert_in_vptr_list_def

lemma chain_rank_ranks:
  "length (ranks (chain_rank n k st)) = length (ranks st)"
  "i \<noteq> k \<Longrightarrow> ranks (chain_rank n k st) ! i = ranks st ! i"
  by (simp_all add: chain_step_defs split: prod.splits)

lemma chain_inv_step_before:
  assumes inv: "chain_inv nl rks k st" and k: "k < length rks" and ks: "k < adder_start rks"
  shows "chain_inv nl rks (Suc k) (chain_rank (length rks) k st)"
proof -
  have sz: "length (rks ! k) \<le> 1" using ks by (rule adder_start_before)
  have cur: "ranks st ! k = rks ! k" "\<not> makingAdderChain st" "netl st = nl" "length (ret st) = k"
    using inv k ks by (simp_all add: chain_inv_def chain_basic_def)
  have r: "ret (chain_rank (length rks) k st) = ret st @ [chain_output nl rks k]"
    using sz cur ks by (simp add: chain_step_defs chain_output_def)
  have f: "makingAdderChain (chain_rank (length rks) k st) = False"
    "netl (chain_rank (length rks) k st) = nl"
    using sz cur by (simp_all add: chain_step_defs)
  show ?thesis
    using inv k ks unfolding chain_inv_def chain_basic_def
    by (simp add: chain_rank_ranks r f nth_append less_Suc_eq)
qed

lemma chain_inputs_step:
  "i \<noteq> k \<Longrightarrow> chain_first_input rks (Suc k) i = chain_first_input rks k i"
  "i \<noteq> k \<Longrightarrow> chain_second_input nl rks (Suc k) i = chain_second_input nl rks k i"
  "chain_first_input rks k k = None" "chain_second_input nl rks k k = None"
  "rks ! k = [] \<Longrightarrow> chain_first_input rks (Suc k) k = None"
  "rks ! k = [] \<Longrightarrow> chain_second_input nl rks (Suc k) k = None"
  "rks ! k \<noteq> [] \<Longrightarrow> chain_first_input rks (Suc k) k = Some (last (rks ! k))"
  "rks ! k \<noteq> [] \<Longrightarrow> chain_second_input nl rks (Suc k) k =
     Some (if length (rks ! k) > 1 then last (butlast (rks ! k)) else zero_net nl)"
  by (auto simp: chain_first_input_def chain_second_input_def less_Suc_eq)

lemma chain_nets_Suc:
  "adder_start rks \<le> k \<Longrightarrow>
   chain_nets nl rks (Suc k) =
     chain_nets nl rks k @
       (if rks ! k \<noteq> [] then [NODE_OUT (length (nodes nl)) (k - adder_start rks)] else [])"
  by (simp add: chain_nets_def)

lemma chain_adder_pins_empty:
  assumes "chain_adder_pins nl rks k pins" and "rks ! k = []"
  shows "chain_adder_pins nl rks (Suc k) pins"
proof -
  have "\<And>i. chain_first_input rks (Suc k) i = chain_first_input rks k i"
    "\<And>i. chain_second_input nl rks (Suc k) i = chain_second_input nl rks k i"
    using assms(2) by (auto simp: chain_first_input_def chain_second_input_def less_Suc_eq)
  then show ?thesis using assms(1) by (simp add: chain_adder_pins_def)
qed

lemma chain_adder_pins_insert:
  assumes p: "chain_adder_pins nl rks k pins" and e: "rks ! k \<noteq> []"
    and sk: "adder_start rks \<le> k" and k: "k < length rks"
    and a: "a = k - adder_start rks"
    and b: "b = length rks - adder_start rks + (k - adder_start rks)"
    and y: "y = (if length (rks ! k) > 1 then last (butlast (rks ! k)) else zero_net nl)"
  shows "chain_adder_pins nl rks (Suc k) (pins[a := Some (last (rks ! k)), b := Some y])"
  unfolding chain_adder_pins_def
proof (intro conjI allI impI)
  show "length (pins[a := Some (last (rks ! k)), b := Some y]) = 2 * (length rks - adder_start rks)"
    using p by (simp add: chain_adder_pins_def)
next
  fix j assume j: "j < length rks - adder_start rks"
  have len: "length pins = 2 * (length rks - adder_start rks)"
    using p by (simp add: chain_adder_pins_def)
  have old: "pins ! j = chain_first_input rks k (adder_start rks + j)"
    "pins ! (length rks - adder_start rks + j) = chain_second_input nl rks k (adder_start rks + j)"
    using p j by (simp_all add: chain_adder_pins_def)
  show "pins[a := Some (last (rks ! k)), b := Some y] ! j =
        chain_first_input rks (Suc k) (adder_start rks + j)"
  proof (cases "adder_start rks + j = k")
    case True
    then have "j = a" "j \<noteq> b" "a < length pins" using a b j len k sk by auto
    then show ?thesis using True e by (simp add: chain_inputs_step)
  next
    case False
    then have "j \<noteq> a" "j \<noteq> b" using a b j sk by auto
    then show ?thesis using False old by (simp add: chain_inputs_step)
  qed
  show "pins[a := Some (last (rks ! k)), b := Some y] ! (length rks - adder_start rks + j) =
        chain_second_input nl rks (Suc k) (adder_start rks + j)"
  proof (cases "adder_start rks + j = k")
    case True
    then have "length rks - adder_start rks + j = b" "b < length pins" using a b j len k sk by auto
    then show ?thesis using True e y by (simp add: chain_inputs_step)
  next
    case False
    then have "length rks - adder_start rks + j \<noteq> a" "length rks - adder_start rks + j \<noteq> b"
      using a b j sk k by auto
    then show ?thesis using False old by (simp add: chain_inputs_step)
  qed
qed

lemma chain_inv_step_empty:
  assumes inv: "chain_inv nl rks k st" and k: "k < length rks" and ks: "adder_start rks < k"
    and e: "rks ! k = []"
  shows "chain_inv nl rks (Suc k) (chain_rank (length rks) k st)"
proof -
  have ad: "chain_adder nl rks k st" using inv ks by (simp add: chain_inv_def)
  have cur: "ranks st ! k = rks ! k" "makingAdderChain st" "length (ret st) = k"
    using inv k ks by (simp_all add: chain_inv_def chain_basic_def)
  have z: "zero_net (netl st) = zero_net nl" using ad by (simp add: chain_adder_def)
  have r: "ret (chain_rank (length rks) k st) = ret st @ [chain_output nl rks k]"
    using e cur z by (simp add: chain_step_defs chain_output_def)
  have f: "makingAdderChain (chain_rank (length rks) k st) = True"
    "netl (chain_rank (length rks) k st) = netl st"
    "adder_start_i (chain_rank (length rks) k st) = adder_start_i st"
    "adder_input_size (chain_rank (length rks) k st) = adder_input_size st"
    "add_node (chain_rank (length rks) k st) = add_node st"
    using e cur by (simp_all add: chain_step_defs)
  have "chain_basic nl rks (Suc k) (chain_rank (length rks) k st)"
    using inv k ks unfolding chain_inv_def chain_basic_def
    by (simp add: chain_rank_ranks r f nth_append less_Suc_eq)
  moreover have "chain_adder nl rks (Suc k) (chain_rank (length rks) k st)"
    using ad ks e unfolding chain_adder_def f
    by (simp add: chain_nets_Suc chain_adder_pins_empty)
  ultimately show ?thesis by (simp add: chain_inv_def)
qed

lemma chain_rank_insert:
  assumes "makingAdderChain st" and "ranks st ! k \<noteq> []"
    and "add_node st < length (nodes (netl st))"
  shows "ret (chain_rank n k st) = ret st @ [length (nets (netl st))]"
    and "makingAdderChain (chain_rank n k st)"
    and "adder_start_i (chain_rank n k st) = adder_start_i st"
    and "adder_input_size (chain_rank n k st) = adder_input_size st"
    and "add_node (chain_rank n k st) = add_node st"
    and "zero_net (netl (chain_rank n k st)) = zero_net (netl st)"
    and "add_list (netl (chain_rank n k st)) = add_list (netl st)"
    and "nets (netl (chain_rank n k st)) =
           nets (netl st) @ [NODE_OUT (add_node st) (k - adder_start_i st)]"
    and "nodes (netl (chain_rank n k st)) =
           (nodes (netl st))[add_node st := (nodes (netl st) ! add_node st)
              \<lparr>input_pins := (input_pins (nodes (netl st) ! add_node st))
                 [k - adder_start_i st := Some (last (ranks st ! k)),
                  adder_input_size st + (k - adder_start_i st) :=
                    Some (if length (ranks st ! k) > 1 then last (butlast (ranks st ! k))
                          else zero_net (netl st))]\<rparr>]"
  using assms by (simp_all add: chain_step_defs split: prod.splits)

lemma chain_inv_step_insert:
  assumes inv: "chain_inv nl rks k st" and k: "k < length rks" and ks: "adder_start rks < k"
    and e: "rks ! k \<noteq> []"
  shows "chain_inv nl rks (Suc k) (chain_rank (length rks) k st)"
proof -
  let ?s = "adder_start rks" and ?v = "length (nodes nl)"
  let ?w = "length rks - ?s"
  have ad: "chain_adder nl rks k st" using inv ks by (simp add: chain_inv_def)
  have cur: "ranks st ! k = rks ! k" "makingAdderChain st" "length (ret st) = k"
    using inv k ks by (simp_all add: chain_inv_def chain_basic_def)
  have adf: "zero_net (netl st) = zero_net nl" "adder_start_i st = ?s" "adder_input_size st = ?w"
    "add_node st = ?v" "length (nodes (netl st)) = Suc ?v"
    "nets (netl st) = nets nl @ chain_nets nl rks k"
    using ad by (simp_all add: chain_adder_def)
  have e': "ranks st ! k \<noteq> []" using e cur by simp
  have v: "add_node st < length (nodes (netl st))" using adf by simp
  note f = chain_rank_insert[OF cur(2) e' v, of "length rks", unfolded cur adf(1-4)]
  have o: "chain_output nl rks k = length (nets (netl st))"
    using ks e adf by (simp add: chain_output_def chain_nets_def)
  have "chain_basic nl rks (Suc k) (chain_rank (length rks) k st)"
    using inv k ks unfolding chain_inv_def chain_basic_def
    by (simp add: chain_rank_ranks f o nth_append less_Suc_eq)
  moreover have "chain_adder nl rks (Suc k) (chain_rank (length rks) k st)"
    unfolding chain_adder_def f
  proof (intro conjI)
    show "chain_adder_pins nl rks (Suc k)
       (input_pins
         ((nodes (netl st))
          [?v := (nodes (netl st) ! ?v)
             \<lparr>input_pins := (input_pins (nodes (netl st) ! ?v))
                [k - ?s := Some (last (rks ! k)),
                 ?w + (k - ?s) := Some (if 1 < length (rks ! k) then last (butlast (rks ! k))
                                        else zero_net nl)]\<rparr>] ! ?v))"
      using ad adf(5) k ks e
      by (simp add: chain_adder_def chain_adder_pins_insert del: One_nat_def)
  qed (use ad adf ks e in \<open>simp_all add: chain_adder_def chain_nets_Suc\<close>)
  ultimately show ?thesis by (simp add: chain_inv_def)
qed


lemma chain_rank_start:
  assumes "\<not> makingAdderChain st" and "length (ranks st ! k) > 1" and "ranks st ! k \<noteq> []"
  shows "ret (chain_rank n k st) = ret st @ [length (nets (netl st))]"
    and "makingAdderChain (chain_rank n k st)"
    and "adder_start_i (chain_rank n k st) = k"
    and "adder_input_size (chain_rank n k st) = n - k"
    and "add_node (chain_rank n k st) = length (nodes (netl st))"
    and "zero_net (netl (chain_rank n k st)) = zero_net (netl st)"
    and "add_list (netl (chain_rank n k st)) = length (nodes (netl st)) # add_list (netl st)"
    and "nets (netl (chain_rank n k st)) =
           nets (netl st) @ [NODE_OUT (length (nodes (netl st))) (k - k)]"
    and "nodes (netl (chain_rank n k st)) =
           nodes (netl st) @
             [\<lparr>node_type = ADD, input_port_sizes = [n - k, n - k],
               input_pins = (replicate (2 * (n - k)) None)
                 [k - k := Some (last (ranks st ! k)),
                  n - k + (k - k) := Some (if length (ranks st ! k) > 1
                     then last (butlast (ranks st ! k)) else zero_net (netl st))],
               num_output_pins = n - k + 1\<rparr>]"
  using assms by (simp_all add: chain_step_defs mult_2 split: prod.splits)

lemma chain_adder_pins_none:
  "chain_adder_pins nl rks (adder_start rks)
     (replicate (2 * (length rks - adder_start rks)) None)"
  by (simp add: chain_adder_pins_def chain_first_input_def chain_second_input_def)

lemma chain_inv_step_start:
  assumes inv: "chain_inv nl rks k st" and k: "k < length rks" and ks: "k = adder_start rks"
  shows "chain_inv nl rks (Suc k) (chain_rank (length rks) k st)"
proof -
  let ?v = "length (nodes nl)"
  let ?w = "length rks - k"
  have tall: "length (rks ! k) > 1" using k ks adder_start_tall by simp
  have cur: "ranks st ! k = rks ! k" "\<not> makingAdderChain st" "length (ret st) = k" "netl st = nl"
    using inv k ks by (simp_all add: chain_inv_def chain_basic_def)
  have t': "length (ranks st ! k) > 1" using tall cur by simp
  have e: "rks ! k \<noteq> []" using tall by auto
  have e': "ranks st ! k \<noteq> []" using e cur by simp
  note f = chain_rank_start[OF cur(2) t' e', of "length rks", unfolded cur]
  have o: "chain_output nl rks k = length (nets nl)"
    using ks e by (simp add: chain_output_def)
  have ks': "adder_start rks \<le> k" "k \<le> adder_start rks" using ks by simp_all
  have "chain_basic nl rks (Suc k) (chain_rank (length rks) k st)"
    using inv k ks' unfolding chain_inv_def chain_basic_def
    by (simp add: chain_rank_ranks f o nth_append less_Suc_eq)
  moreover have "chain_adder nl rks (Suc k) (chain_rank (length rks) k st)"
    unfolding chain_adder_def f
  proof (intro conjI)
    have "chain_adder_pins nl rks (Suc k)
       ((replicate (2 * ?w) None)
          [k - k := Some (last (rks ! k)),
           ?w + (k - k) := Some (if 1 < length (rks ! k) then last (butlast (rks ! k))
                                 else zero_net nl)])"
      using chain_adder_pins_none[of nl rks] k e unfolding ks[symmetric]
      by (intro chain_adder_pins_insert) (simp_all add: ks)
    then show "chain_adder_pins nl rks (Suc k)
       (input_pins
         ((nodes nl @
            [\<lparr>node_type = ADD, input_port_sizes = [?w, ?w],
              input_pins = (replicate (2 * ?w) None)
                [k - k := Some (last (rks ! k)),
                 ?w + (k - k) := Some (if 1 < length (rks ! k) then last (butlast (rks ! k))
                                       else zero_net nl)],
              num_output_pins = ?w + 1\<rparr>]) ! ?v))"
      by (simp del: One_nat_def)
  qed (use ks e in \<open>simp_all add: chain_nets_def\<close>)
  ultimately show ?thesis by (simp add: chain_inv_def)
qed

lemma chain_inv_step:
  assumes "chain_inv nl rks k st" and "k < length rks"
  shows "chain_inv nl rks (Suc k) (chain_rank (length rks) k st)"
proof -
  consider "k < adder_start rks" | "k = adder_start rks"
    | "adder_start rks < k" "rks ! k = []" | "adder_start rks < k" "rks ! k \<noteq> []"
    by fastforce
  then show ?thesis
    using assms
    by cases (simp_all add: chain_inv_step_before chain_inv_step_start chain_inv_step_empty
        chain_inv_step_insert)
qed

lemma chain_inv_init: "chain_inv nl rks 0 (chain_init nl rks)"
  by (simp add: chain_inv_def chain_basic_def chain_init_def)

lemma chain_inv_fold:
  "k \<le> length rks \<Longrightarrow>
   chain_inv nl rks k (fold (chain_rank (length rks)) [0..<k] (chain_init nl rks))"
  by (induction k) (simp_all add: chain_inv_init chain_inv_step)


lemma chain_carry_out_fields:
  "makingAdderChain (chain_carry_out st) = makingAdderChain st"
  "adder_start_i (chain_carry_out st) = adder_start_i st"
  "adder_input_size (chain_carry_out st) = adder_input_size st"
  "add_node (chain_carry_out st) = add_node st"
  "nodes (netl (chain_carry_out st)) = nodes (netl st)"
  "zero_net (netl (chain_carry_out st)) = zero_net (netl st)"
  "add_list (netl (chain_carry_out st)) = add_list (netl st)"
  "ret (chain_carry_out st) =
     (if makingAdderChain st then ret st @ [length (nets (netl st))] else ret st)"
  "nets (netl (chain_carry_out st)) =
     (if makingAdderChain st
      then nets (netl st) @ [NODE_OUT (add_node st) (adder_input_size st)] else nets (netl st))"
  "\<not> makingAdderChain st \<Longrightarrow> chain_carry_out st = st"
  by (simp_all add: chain_carry_out_def make_output_pin_def)

lemma chain_nets_nth:
  assumes "adder_start rks \<le> i" and "i < k" and "rks ! i \<noteq> []"
  shows "chain_nets nl rks k ! length (filter (\<lambda>j. rks ! j \<noteq> []) [adder_start rks..<i]) =
         NODE_OUT (length (nodes nl)) (i - adder_start rks)"
    and "length (filter (\<lambda>j. rks ! j \<noteq> []) [adder_start rks..<i]) < length (chain_nets nl rks k)"
proof -
  have split: "[adder_start rks..<k] = [adder_start rks..<i] @ i # [Suc i..<k]"
    using assms(1,2) by (metis le_Suc_ex less_imp_le_nat upt_add_eq_append upt_conv_Cons)
  show "chain_nets nl rks k ! length (filter (\<lambda>j. rks ! j \<noteq> []) [adder_start rks..<i]) =
         NODE_OUT (length (nodes nl)) (i - adder_start rks)"
    using assms(3) unfolding chain_nets_def split
    by (simp add: nth_append)
  show "length (filter (\<lambda>j. rks ! j \<noteq> []) [adder_start rks..<i]) < length (chain_nets nl rks k)"
    using assms(3) unfolding chain_nets_def split by simp
qed

lemma chain_final:
  "chain_inv nl rks (length rks)
     (fold (chain_rank (length rks)) [0..<length rks] (chain_init nl rks))"
  by (rule chain_inv_fold) simp

text \<open>
  Claim C5. For every rank structure (whatever the heights) \<^verbatim>\<open>ranks_to_adder_chain\<close> returns
  one signal per rank, in rank order, and one more signal, the adder's carry out, exactly
  when an adder was made, which is exactly when some rank has more than one signal. The
  adder starts at \<open>s\<close>, the first such rank, its two input words and its variables have
  width \<open>n - s\<close>, it is the only node created and it is registered in \<^verbatim>\<open>add_list\<close>. The
  output of a rank is the zero signal if the rank is empty, the rank's signal if it is
  before \<open>s\<close>, and otherwise output \<open>i - s\<close> of the adder. Without an adder, and so for the
  empty rank structure, the netlist is left as it was.
\<close>

theorem finisher_output_shape:
  "let c = ranks_to_adder_chain nl rks; s = adder_start rks; n = length rks;
       v = length (nodes nl) in
     s \<le> n \<and> (\<forall>j<s. length (rks ! j) \<le> 1) \<and> (s < n \<longrightarrow> length (rks ! s) > 1) \<and>
     makingAdderChain c = (s < n) \<and>
     length (ret c) = (if s < n then n + 1 else n) \<and>
     (\<forall>i<n. ret c ! i = chain_output nl rks i) \<and>
     (\<forall>i<n. s \<le> i \<and> rks ! i \<noteq> [] \<longrightarrow>
         ret c ! i < length (nets (netl c)) \<and> nets (netl c) ! (ret c ! i) = NODE_OUT v (i - s)) \<and>
     (s < n \<longrightarrow>
         adder_start_i c = s \<and> adder_input_size c = n - s \<and> add_node c = v \<and>
         length (nodes (netl c)) = Suc v \<and> take v (nodes (netl c)) = nodes nl \<and>
         node_type (nodes (netl c) ! v) = ADD \<and>
         input_port_sizes (nodes (netl c) ! v) = [n - s, n - s] \<and>
         num_output_pins (nodes (netl c) ! v) = n - s + 1 \<and>
         add_list (netl c) = v # add_list nl \<and>
         ret c ! n < length (nets (netl c)) \<and>
         nets (netl c) ! (ret c ! n) = NODE_OUT v (n - s)) \<and>
     (\<not> s < n \<longrightarrow> netl c = nl) \<and>
     (rks = [] \<longrightarrow> ret c = [] \<and> netl c = nl)"
proof -
  define st where "st = fold (chain_rank (length rks)) [0..<length rks] (chain_init nl rks)"
  define c where "c = ranks_to_adder_chain nl rks"
  let ?s = "adder_start rks" and ?n = "length rks" and ?v = "length (nodes nl)"
  have c: "c = chain_carry_out st" by (simp add: c_def st_def ranks_to_adder_chain_def)
  have inv: "chain_inv nl rks ?n st" unfolding st_def by (rule chain_final)
  then have basic: "chain_basic nl rks ?n st" by (simp add: chain_inv_def)
  have adder: "?s < ?n \<Longrightarrow> chain_adder nl rks ?n st" using inv by (simp add: chain_inv_def)
  have mk: "makingAdderChain st = (?s < ?n)" using basic by (simp add: chain_basic_def)
  have 1: "?s \<le> ?n" by (rule adder_start_le)
  have 2: "\<forall>j<?s. length (rks ! j) \<le> 1" using adder_start_before by blast
  have 3: "?s < ?n \<longrightarrow> length (rks ! ?s) > 1" using adder_start_tall by blast
  have 4: "makingAdderChain c = (?s < ?n)" using mk by (simp add: c chain_carry_out_fields)
  have 5: "length (ret c) = (if ?s < ?n then ?n + 1 else ?n)"
    using basic mk by (simp add: c chain_carry_out_fields chain_basic_def)
  have 6: "\<forall>i<?n. ret c ! i = chain_output nl rks i"
    using basic mk by (simp add: c chain_carry_out_fields chain_basic_def nth_append)
  have 7: "\<forall>i<?n. ?s \<le> i \<and> rks ! i \<noteq> [] \<longrightarrow>
         ret c ! i < length (nets (netl c)) \<and> nets (netl c) ! (ret c ! i) = NODE_OUT ?v (i - ?s)"
  proof (intro allI impI)
    fix i assume i: "i < ?n" "?s \<le> i \<and> rks ! i \<noteq> []"
    then have sn: "?s < ?n" by simp
    have nets: "nets (netl st) = nets nl @ chain_nets nl rks ?n"
      using adder[OF sn] by (simp add: chain_adder_def)
    have out: "ret c ! i = length (nets nl) + length (filter (\<lambda>j. rks ! j \<noteq> []) [?s..<i])"
      using 6 i by (simp add: chain_output_def)
    have netsc: "nets (netl c) =
        nets nl @ chain_nets nl rks ?n @ [NODE_OUT (add_node st) (adder_input_size st)]"
      using mk sn nets by (simp add: c chain_carry_out_fields)
    show "ret c ! i < length (nets (netl c)) \<and> nets (netl c) ! (ret c ! i) = NODE_OUT ?v (i - ?s)"
      unfolding out netsc using chain_nets_nth[of rks i ?n nl] i
      by (simp add: nth_append)
  qed
  have 8: "?s < ?n \<longrightarrow>
         adder_start_i c = ?s \<and> adder_input_size c = ?n - ?s \<and> add_node c = ?v \<and>
         length (nodes (netl c)) = Suc ?v \<and> take ?v (nodes (netl c)) = nodes nl \<and>
         node_type (nodes (netl c) ! ?v) = ADD \<and>
         input_port_sizes (nodes (netl c) ! ?v) = [?n - ?s, ?n - ?s] \<and>
         num_output_pins (nodes (netl c) ! ?v) = ?n - ?s + 1 \<and>
         add_list (netl c) = ?v # add_list nl \<and>
         ret c ! ?n < length (nets (netl c)) \<and>
         nets (netl c) ! (ret c ! ?n) = NODE_OUT ?v (?n - ?s)"
  proof
    assume sn: "?s < ?n"
    have len: "length (ret st) = ?n" using basic by (simp add: chain_basic_def)
    show "adder_start_i c = ?s \<and> adder_input_size c = ?n - ?s \<and> add_node c = ?v \<and>
         length (nodes (netl c)) = Suc ?v \<and> take ?v (nodes (netl c)) = nodes nl \<and>
         node_type (nodes (netl c) ! ?v) = ADD \<and>
         input_port_sizes (nodes (netl c) ! ?v) = [?n - ?s, ?n - ?s] \<and>
         num_output_pins (nodes (netl c) ! ?v) = ?n - ?s + 1 \<and>
         add_list (netl c) = ?v # add_list nl \<and>
         ret c ! ?n < length (nets (netl c)) \<and>
         nets (netl c) ! (ret c ! ?n) = NODE_OUT ?v (?n - ?s)"
      using adder[OF sn] mk sn len
      by (simp add: c chain_carry_out_fields chain_adder_def nth_append)
  qed
  have 9: "\<not> ?s < ?n \<longrightarrow> netl c = nl"
    using basic mk by (simp add: c chain_carry_out_fields chain_basic_def)
  have 10: "rks = [] \<longrightarrow> ret c = [] \<and> netl c = nl"
    using 5 9 by auto
  from 1 2 3 4 5 6 7 8 9 10 show ?thesis
    unfolding Let_def c_def by blast
qed


lemma wf_netlist_no_new_driver:
  "wf_netlist nl \<Longrightarrow> NODE_OUT (length (nodes nl)) k \<notin> set (nets nl)"
  by (auto simp: wf_netlist_def list_all_iff driver_ok_def)

text \<open>
  Claim C10. If rank \<open>i\<close>, at or after the adder start, is empty, then an adder exists, the
  output signal of index \<open>i\<close> is the netlist's zero signal, both adder inputs of position
  \<open>i - s\<close> are unconnected, and no net is driven by the adder's output \<open>i - s\<close>: no signal of
  the returned sequence can read it.
\<close>

theorem empty_rank_inside_adder_span:
  assumes wf: "wf_netlist nl" and si: "adder_start rks \<le> i" and i: "i < length rks"
    and e: "rks ! i = []"
  shows "let c = ranks_to_adder_chain nl rks; s = adder_start rks;
             v = add_node c; w = adder_input_size c in
           makingAdderChain c \<and> node_type (nodes (netl c) ! v) = ADD \<and>
           w = length rks - s \<and> w + (i - s) < length (input_pins (nodes (netl c) ! v)) \<and>
           ret c ! i = get_zero_pin nl \<and> get_zero_pin (netl c) = get_zero_pin nl \<and>
           input_pins (nodes (netl c) ! v) ! (i - s) = None \<and>
           input_pins (nodes (netl c) ! v) ! (w + (i - s)) = None \<and>
           NODE_OUT v (i - s) \<notin> set (nets (netl c))"
proof -
  define st where "st = fold (chain_rank (length rks)) [0..<length rks] (chain_init nl rks)"
  define c where "c = ranks_to_adder_chain nl rks"
  let ?s = "adder_start rks" and ?n = "length rks" and ?v = "length (nodes nl)"
  have c: "c = chain_carry_out st" by (simp add: c_def st_def ranks_to_adder_chain_def)
  have inv: "chain_inv nl rks ?n st" unfolding st_def by (rule chain_final)
  have sn: "?s < ?n" using si i by simp
  have basic: "chain_basic nl rks ?n st" and adder: "chain_adder nl rks ?n st"
    using inv sn by (simp_all add: chain_inv_def)
  have mk: "makingAdderChain st" using basic sn by (simp add: chain_basic_def)
  have f: "adder_start_i st = ?s" "adder_input_size st = ?n - ?s" "add_node st = ?v"
    "zero_net (netl st) = zero_net nl" "nets (netl st) = nets nl @ chain_nets nl rks ?n"
    "node_type (nodes (netl st) ! ?v) = ADD"
    and pins: "chain_adder_pins nl rks ?n (input_pins (nodes (netl st) ! ?v))"
    using adder by (simp_all add: chain_adder_def)
  have j: "i - ?s < ?n - ?s" "?s + (i - ?s) = i" using si i by simp_all
  have "input_pins (nodes (netl st) ! ?v) ! (i - ?s) = chain_first_input rks ?n (?s + (i - ?s)) \<and>
        input_pins (nodes (netl st) ! ?v) ! (?n - ?s + (i - ?s)) =
          chain_second_input nl rks ?n (?s + (i - ?s))"
    using pins j(1) unfolding chain_adder_pins_def by blast
  then have p1: "input_pins (nodes (netl st) ! ?v) ! (i - ?s) = None"
    and p2: "input_pins (nodes (netl st) ! ?v) ! (?n - ?s + (i - ?s)) = None"
    unfolding j(2) using e by (simp_all add: chain_first_input_def chain_second_input_def)
  have p3: "?n - ?s + (i - ?s) < length (input_pins (nodes (netl st) ! ?v))"
    using pins j(1) unfolding chain_adder_pins_def by linarith
  have r: "ret c ! i = zero_net nl"
    using basic mk i e by (simp add: c chain_carry_out_fields chain_basic_def nth_append chain_output_def)
  have "NODE_OUT ?v (i - ?s) \<notin> set (chain_nets nl rks ?n)"
  proof
    assume "NODE_OUT ?v (i - ?s) \<in> set (chain_nets nl rks ?n)"
    then obtain x where x: "?s \<le> x" "rks ! x \<noteq> []" "i - ?s = x - ?s"
      by (auto simp: chain_nets_def)
    then have "x = i" using si by linarith
    then show False using x e by simp
  qed
  moreover have "NODE_OUT ?v (i - ?s) \<noteq> NODE_OUT ?v (?n - ?s)" using j by simp
  ultimately have n: "NODE_OUT ?v (i - ?s) \<notin> set (nets (netl c))"
    using wf_netlist_no_new_driver[OF wf] mk f by (simp add: c chain_carry_out_fields)
  have fc: "makingAdderChain c" "add_node c = ?v" "adder_input_size c = ?n - ?s"
    "nodes (netl c) = nodes (netl st)" "zero_net (netl c) = zero_net nl"
    using mk f by (simp_all add: c chain_carry_out_fields)
  show ?thesis
    unfolding Let_def c_def[symmetric] fc(2-5) get_zero_pin_def
    using fc(1) f(6) p1 p2 p3 r n by blast
qed


theorem finisher_output_shape_witness:
  "adder_start [[0], [2, 3], []] < length [[0::nat], [2, 3], []] \<and>
   makingAdderChain (ranks_to_adder_chain (example_netlist 4) [[0], [2, 3], []]) \<and>
   length (ret (ranks_to_adder_chain (example_netlist 4) [[0], [2, 3], []])) = 4 \<and>
   ret (ranks_to_adder_chain (example_netlist 4) [[0], [2, 3], []]) ! 0 = 0 \<and>
   adder_start_i (ranks_to_adder_chain (example_netlist 4) [[0], [2, 3], []]) = Suc 0 \<and>
   adder_input_size (ranks_to_adder_chain (example_netlist 4) [[0], [2, 3], []]) = 2"
proof -
  have s: "adder_start [[0], [2, 3], []] = Suc 0" by (simp add: adder_start_def)
  show ?thesis
    using finisher_output_shape[of "example_netlist 4" "[[0], [2, 3], []]"]
    unfolding Let_def s by (simp add: chain_output_def s)
qed

theorem empty_rank_inside_adder_span_witness:
  "wf_netlist (example_netlist 4) \<and> adder_start [[0, 2], [], [3]] \<le> Suc 0 \<and>
   Suc 0 < length [[0::nat, 2], [], [3]] \<and> [[0::nat, 2], [], [3]] ! Suc 0 = [] \<and>
   makingAdderChain (ranks_to_adder_chain (example_netlist 4) [[0, 2], [], [3]]) \<and>
   ret (ranks_to_adder_chain (example_netlist 4) [[0, 2], [], [3]]) ! Suc 0 =
     get_zero_pin (example_netlist 4) \<and>
   input_pins (nodes (netl (ranks_to_adder_chain (example_netlist 4) [[0, 2], [], [3]])) !
      add_node (ranks_to_adder_chain (example_netlist 4) [[0, 2], [], [3]])) ! Suc 0 = None \<and>
   input_pins (nodes (netl (ranks_to_adder_chain (example_netlist 4) [[0, 2], [], [3]])) !
      add_node (ranks_to_adder_chain (example_netlist 4) [[0, 2], [], [3]])) ! 4 = None"
proof -
  have s: "adder_start [[0, 2], [], [3]] = 0" by (simp add: adder_start_def)
  have h: "wf_netlist (example_netlist 4)" "adder_start [[0, 2], [], [3]] \<le> Suc 0"
    "Suc 0 < length [[0::nat, 2], [], [3]]" "[[0::nat, 2], [], [3]] ! Suc 0 = []"
    by (simp_all add: wf_example_netlist s)
  show ?thesis
    using empty_rank_inside_adder_span[OF h] h
    unfolding Let_def s by (auto simp: eval_nat_numeral)
qed

section \<open>Runs on concrete rank structures\<close>

lemmas upt_eval = upt_rec[of _ "numeral _"] upt_rec[of _ "Suc _"] upt_rec[of _ "1"]

lemmas netlist_eval = implement_FA_eq implement_HA_eq make_2port_gate_def allocate_node_def
  add_input_pin_to_node_def make_output_pin_def get_zero_pin_def insert_in_vptr_list_def

lemmas tree_eval = reduce_with_FA_def reduce_with_HA_def make_new_row_def check_max_size_def
  append_temp_rank_def get_max_rank_size_def Let_def upt_eval

lemmas wallace_eval = wallace_reduce_def wallace_loop.simps wallace_stage_def wallace_merge_def
  wallace_reduce_ranks_def wallace_rank_def wallace_HA_def
  wallace_stage_begin_def wallace_target_def wallace_init_def

lemmas dadda_eval = dadda_reduce_def dadda_schedule_def dadda_get_d_factors.simps dadda_roll_back_def
  dadda_loop.simps dadda_stage_def dadda_merge_def dadda_reduce_ranks_def dadda_rank_def dadda_HA_def
  dadda_stage_begin_def dadda_init_def

lemmas chain_eval = ranks_to_adder_chain_def chain_carry_out_def chain_rank_def chain_init_def
  insert_pins_into_adder_def make_adder_chain_def finish_def
  implement_compressor_tree_def implement_compressor_tree_wallace_def
  implement_compressor_tree_dadda_def

lemmas value_eval = compress_value_def net_values_def eval_nets_def driver_value_def gate_value_def
  pin_value_def signal_value_def rank_value_def



lemma example_netlist_eval:
  "example_netlist 2 = \<lparr>nodes = [], nets = [EXTERNAL, EXTERNAL, GND], zero_net = 2, add_list = []\<rparr>"
  "example_netlist 4 = \<lparr>nodes = [], nets = [EXTERNAL, EXTERNAL, EXTERNAL, EXTERNAL, GND], zero_net = 4, add_list = []\<rparr>"
  "example_netlist 5 = \<lparr>nodes = [], nets = [EXTERNAL, EXTERNAL, EXTERNAL, EXTERNAL, EXTERNAL, GND], zero_net = 5, add_list = []\<rparr>"
  "example_netlist 6 = \<lparr>nodes = [], nets = [EXTERNAL, EXTERNAL, EXTERNAL, EXTERNAL, EXTERNAL, EXTERNAL, GND], zero_net = 6, add_list = []\<rparr>"
  by (simp_all add: example_netlist_def eval_nat_numeral)

text \<open>
  Claim C1 (the code loses value). The rank structure \<open>[[0, 1], []]\<close> over two external
  signals denotes 2 when both signals are 1. Its heights are at most 2, so both reducers
  leave it unchanged, and the finisher starts a two-bit adder at rank 0. Rank 1 is empty:
  the second output is the constant-zero signal, both adder inputs of that position stay
  unconnected, and the carry out of position 0 is never read. The returned sequence denotes
  0, for the Wallace and for the Dadda strategy.
\<close>

theorem empty_rank_in_adder_span_loses_value:
  "ranks_value (net_values (\<lambda>n. True) (example_netlist 2)) [[0, 1], []] = 2 \<and>
   implement_compressor_tree WALLACE (example_netlist 2) [[0, 1], []] =
     Some (Inr ([3, 2, 4],
       \<lparr>nodes = [\<lparr>node_type = ADD, input_port_sizes = [2, 2],
                   input_pins = [Some 1, None, Some 0, None], num_output_pins = 3\<rparr>],
        nets = [EXTERNAL, EXTERNAL, GND, NODE_OUT 0 0, NODE_OUT 0 2],
        zero_net = 2, add_list = [0]\<rparr>)) \<and>
   implement_compressor_tree DADDA (example_netlist 2) [[0, 1], []] =
     implement_compressor_tree WALLACE (example_netlist 2) [[0, 1], []] \<and>
   compress_value WALLACE (\<lambda>n. True) (example_netlist 2) [[0, 1], []] = Some 0 \<and>
   compress_value DADDA (\<lambda>n. True) (example_netlist 2) [[0, 1], []] = Some 0"
proof -
  let ?nl = "\<lparr>nodes = [\<lparr>node_type = ADD, input_port_sizes = [2, 2],
                   input_pins = [Some 1, None, Some 0, None], num_output_pins = 3\<rparr>],
        nets = [EXTERNAL, EXTERNAL, GND, NODE_OUT 0 0, NODE_OUT 0 2],
        zero_net = 2, add_list = [0]\<rparr>"
  have w: "implement_compressor_tree WALLACE (example_netlist 2) [[0, 1], []] =
      Some (Inr ([3, 2, 4], ?nl))"
    by (simp add: example_netlist_eval chain_eval wallace_eval tree_eval netlist_eval)
  have dd: "implement_compressor_tree DADDA (example_netlist 2) [[0, 1], []] =
      Some (Inr ([3, 2, 4], ?nl))"
    by (simp add: example_netlist_eval chain_eval dadda_eval tree_eval netlist_eval)
  have v: "output_value (net_values (\<lambda>n. True) ?nl) [3, 2, 4] = 0"
    by code_simp
  have i: "ranks_value (net_values (\<lambda>n. True) (example_netlist 2)) [[0, 1], []] = 2"
    unfolding example_netlist_eval by code_simp
  have cw: "compress_value WALLACE (\<lambda>n. True) (example_netlist 2) [[0, 1], []] = Some 0"
    unfolding compress_value_def w by (simp only: option.case sum.case prod.case v)
  have cd: "compress_value DADDA (\<lambda>n. True) (example_netlist 2) [[0, 1], []] = Some 0"
    unfolding compress_value_def dd by (simp only: option.case sum.case prod.case v)
  from i w dd cw cd show ?thesis
    by (simp only: simp_thms)
qed

text \<open>
  Claim C3 (the code keeps a stale carry count). Ranks of heights 3, 1, 2 give the
  threshold \<open>d = 2\<close>. Rank 0 receives one half adder, so rank 1 sees \<open>carry_in = 1\<close> and is
  passed through (\<open>1 + 1 \<le> 2\<close>): no adder is applied to it. The carry count seen by rank 2
  is still 1, not the 0 adders of rank 1, and rank 2, of height 2 with no carry coming in,
  receives a half adder.
\<close>

theorem dadda_carry_count_stale_after_pass_through:
  "map_option d (dadda_first_stage (example_netlist 6) [[0, 1, 2], [3], [4, 5]] 0) = Some 2 \<and>
   map_option (\<lambda>st. (last_carry_count st, ranks st ! 1, adder_count (netl st)))
     (dadda_first_stage (example_netlist 6) [[0, 1, 2], [3], [4, 5]] 1) = Some (1, [3], 1) \<and>
   map_option (\<lambda>st. (last_carry_count st, ranks st ! 1, adder_count (netl st)))
     (dadda_first_stage (example_netlist 6) [[0, 1, 2], [3], [4, 5]] 2) = Some (1, [3], 1) \<and>
   map_option (\<lambda>st. (ranks st ! 2, adder_count (netl st)))
     (dadda_first_stage (example_netlist 6) [[0, 1, 2], [3], [4, 5]] 3) = Some ([], 2)"
  by (simp add: dadda_first_stage_def example_netlist_eval dadda_eval tree_eval netlist_eval
      adder_count_def)

text \<open>
  Claim C2, as stated, fails on a single rank of height 5 (target 4). Rank 0 is the first
  rank of the stage with height at least 2, so the stated rule asks for a half adder on the
  pair that the full adder leaves; the code has cleared \<^verbatim>\<open>is_first_reducible_rank\<close> in the
  full-adder loop, \<open>1 + 0 + 2 > 4\<close> is false, and the pair \<open>[0, 1]\<close> is passed through: one
  adder in all.
\<close>

theorem wallace_tie_break_counterexample:
  "spec_wallace_tie_break 4 [[0, 1, 2, 3, 4]] 0 1 0 \<and>
   wallace_target (wallace_init (example_netlist 5) [[0, 1, 2, 3, 4]]) = 4 \<and>
   ranks (wallace_reduce_ranks 1 (wallace_init (example_netlist 5) [[0, 1, 2, 3, 4]])) ! 0 = [0, 1] \<and>
   last_adder_count (wallace_reduce_ranks 1 (wallace_init (example_netlist 5) [[0, 1, 2, 3, 4]])) = 1 \<and>
   adder_count (netl (wallace_reduce_ranks 1 (wallace_init (example_netlist 5) [[0, 1, 2, 3, 4]]))) = 1"
  by (simp add: spec_wallace_tie_break_def example_netlist_eval wallace_eval tree_eval netlist_eval
      adder_count_def)

text \<open>
  Claim C8, as stated, fails on a single rank of height 4: the Dadda reducer inserts two
  half adders (thresholds 3 and 2), the Wallace reducer one full adder.
\<close>

theorem dadda_more_adders_counterexample:
  "map_option (map_sum id (\<lambda>st. adder_count (netl st)))
     (dadda_reduce (example_netlist 4) [[0, 1, 2, 3]]) = Some (Inr 2) \<and>
   map_option (map_sum id (\<lambda>st. adder_count (netl st)))
     (wallace_reduce (example_netlist 4) [[0, 1, 2, 3]]) = Some (Inr 1)"
  by (simp add: example_netlist_eval wallace_eval dadda_eval tree_eval netlist_eval adder_count_def)

end
